theory Spec2Isabelle
  imports Main
begin

section \<open>Vocabulary of the Battleship rules engine\<close>

text \<open>
  The engine modelled here is the first Battleship variant of the repository
  (classes \<open>BattleShipBoard\<close>, \<open>BattleShipPlayer\<close>, \<open>BattleShipGame\<close> and
  \<open>BattleShipRules\<close>). Exceptions are values of type \<open>error\<close>; every method that
  mutates an object takes the object and returns it as it is when the method exits,
  also when it exits by a throw.
\<close>

datatype PLAYER = P1 | P2

type_synonym BoardPosition = "int \<times> int"

datatype ORIENTATION = HORIZONTAL | VERTICAL

text \<open>\<open>type ShipSize = 1 | 3 | 5\<close>\<close>

datatype ShipSize = Size1 | Size3 | Size5

fun size_value :: "ShipSize \<Rightarrow> int" where
  "size_value Size1 = 1"
| "size_value Size3 = 3"
| "size_value Size5 = 5"

text \<open>
  The failures of the engine. The first six are the \<open>throw new Error(...)\<close> sites of
  the board and of the player; \<open>TypeError\<close> is what the JavaScript runtime raises when a
  property is read from \<open>undefined\<close>; \<open>NotShipCrafting\<close> is the throw of \<open>initView\<close>.
\<close>

datatype error =
    OutOfBounds | Overlap | AlreadyAttacked
  | InvalidShipId | InvalidPart | AlreadyDamaged
  | TypeError | NotShipCrafting

section \<open>Ship pieces\<close>

text \<open>
  The size of a piece is a \<open>ShipSize\<close>, or \<open>None\<close> for JavaScript's \<open>undefined\<close>, which
  is what the rules pass when they read the size sequence past its end.
\<close>

record ShipPiece =
  ship_id :: int
  ship_size :: "ShipSize option"
  ship_orientation :: ORIENTATION
  ship_position :: BoardPosition
  damaged :: "bool list"
  damage :: int

text \<open>The constructor pushes \<open>false\<close> while \<open>i < size\<close>; with an undefined size, never.\<close>

definition new_ShipPiece :: "int \<Rightarrow> ShipSize option \<Rightarrow> ORIENTATION \<Rightarrow> BoardPosition \<Rightarrow> ShipPiece" where
  "new_ShipPiece idx sz orientation position =
     \<lparr> ship_id = idx, ship_size = sz, ship_orientation = orientation,
       ship_position = position,
       damaged = (case sz of None \<Rightarrow> [] | Some s \<Rightarrow> replicate (nat (size_value s)) False),
       damage = 0 \<rparr>"

section \<open>Board\<close>

datatype BattleShipBoardCell =
    WaterBoardCell (attacked: bool)
  | ShipBoardCell (shipId: int) (shipPart: int) (attacked: bool)

fun is_ship :: "BattleShipBoardCell \<Rightarrow> bool" where
  "is_ship (WaterBoardCell a) = False"
| "is_ship (ShipBoardCell i p a) = True"

text \<open>
  The two-dimensional array \<open>board\<close> is a partial map from index pairs to cells:
  \<open>board b (x, y) = None\<close> when \<open>this.board[x][y]\<close> is \<open>undefined\<close> (or the row
  \<open>this.board[x]\<close> is), so that reading a property of it raises \<open>TypeError\<close>.
\<close>

record BattleShipBoard =
  board :: "int \<times> int \<rightharpoonup> BattleShipBoardCell"
  boardSize :: int

definition new_BattleShipBoard :: "int \<Rightarrow> BattleShipBoard" where
  "new_BattleShipBoard n =
     \<lparr> board = (\<lambda>(i, j). if 0 \<le> i \<and> i < n \<and> 0 \<le> j \<and> j < n
                          then Some (WaterBoardCell False) else None),
       boardSize = n \<rparr>"

text \<open>\<open>(ship.size - 1)/2\<close>: the sizes are odd, so the quotient is exact.\<close>

definition half :: "ShipSize \<Rightarrow> int" where
  "half s = (size_value s - 1) div 2"

text \<open>
  The first loop of \<open>settleShip\<close>, \<open>for (pos = lo; pos <= hi; pos++)\<close>, which throws at
  the first ship cell; \<open>at pos\<close> is \<open>(x, pos)\<close> for a horizontal ship and \<open>(pos, y)\<close> for a
  vertical one.
\<close>

function occupied_check ::
  "BattleShipBoard \<Rightarrow> (int \<Rightarrow> int \<times> int) \<Rightarrow> int \<Rightarrow> int \<Rightarrow> error option" where
  "occupied_check b at pos hi =
     (if pos \<le> hi then
        (case board b (at pos) of
           None \<Rightarrow> Some TypeError
         | Some c \<Rightarrow> if is_ship c then Some Overlap
                     else occupied_check b at (pos + 1) hi)
      else None)"
  by pat_completeness auto
termination
  by (relation "measure (\<lambda>(b, at, pos, hi). nat (hi + 1 - pos))") auto

text \<open>The second loop, which replaces each cell by \<open>new ShipBoardCell(ship.id, pos)\<close>.\<close>

function mark_cells ::
  "BattleShipBoard \<Rightarrow> int \<Rightarrow> (int \<Rightarrow> int \<times> int) \<Rightarrow> int \<Rightarrow> int \<Rightarrow> BattleShipBoard" where
  "mark_cells b sid at pos hi =
     (if pos \<le> hi then
        mark_cells (b\<lparr>board := (board b)(at pos \<mapsto> ShipBoardCell sid pos False)\<rparr>)
          sid at (pos + 1) hi
      else b)"
  by pat_completeness auto
termination
  by (relation "measure (\<lambda>(b, sid, at, pos, hi). nat (hi + 1 - pos))") auto

declare occupied_check.simps [simp del]
declare mark_cells.simps [simp del]

text \<open>
  \<open>BattleShipBoard.settleShip\<close>. With an undefined size every comparison of the extent
  check is a comparison with \<open>NaN\<close>, hence false, and neither loop runs.
\<close>

definition Board_settleShip ::
  "ShipPiece \<Rightarrow> BattleShipBoard \<Rightarrow> (error + unit) \<times> BattleShipBoard" where
  "Board_settleShip ship b =
     (let x = fst (ship_position ship); y = snd (ship_position ship) in
      if x < 0 \<or> x \<ge> boardSize b \<or> y < 0 \<or> y > boardSize b then (Inl OutOfBounds, b)
      else
        (case ship_size ship of
           None \<Rightarrow> (Inr (), b)
         | Some s \<Rightarrow>
             (case ship_orientation ship of
                HORIZONTAL \<Rightarrow>
                  if y - half s < 0 \<or> y + half s \<ge> boardSize b then (Inl OutOfBounds, b)
                  else
                    (case occupied_check b (\<lambda>pos. (x, pos)) (y - half s) (y + half s) of
                       Some e \<Rightarrow> (Inl e, b)
                     | None \<Rightarrow>
                         (Inr (), mark_cells b (ship_id ship) (\<lambda>pos. (x, pos))
                                    (y - half s) (y + half s)))
              | VERTICAL \<Rightarrow>
                  if x - half s < 0 \<or> x + half s \<ge> boardSize b then (Inl OutOfBounds, b)
                  else
                    (case occupied_check b (\<lambda>pos. (pos, y)) (x - half s) (x + half s) of
                       Some e \<Rightarrow> (Inl e, b)
                     | None \<Rightarrow>
                         (Inr (), mark_cells b (ship_id ship) (\<lambda>pos. (pos, y))
                                    (x - half s) (x + half s))))))"

fun set_attacked :: "BattleShipBoardCell \<Rightarrow> BattleShipBoardCell" where
  "set_attacked (WaterBoardCell a) = WaterBoardCell True"
| "set_attacked (ShipBoardCell i p a) = ShipBoardCell i p True"

fun hit_report :: "BattleShipBoardCell \<Rightarrow> (int \<times> int) option" where
  "hit_report (WaterBoardCell a) = None"
| "hit_report (ShipBoardCell i p a) = Some (i, p)"

text \<open>\<open>BattleShipBoard.attack\<close>; the result \<open>None\<close> is the source's \<open>null\<close> (water).\<close>

definition Board_attack ::
  "BoardPosition \<Rightarrow> BattleShipBoard \<Rightarrow> (error + (int \<times> int) option) \<times> BattleShipBoard" where
  "Board_attack target b =
     (let x = fst target; y = snd target in
      if x < 0 \<or> y < 0 \<or> x \<ge> boardSize b \<or> y \<ge> boardSize b then (Inl OutOfBounds, b)
      else
        (case board b (x, y) of
           None \<Rightarrow> (Inl TypeError, b)
         | Some cell \<Rightarrow>
             if attacked cell then (Inl AlreadyAttacked, b)
             else (Inr (hit_report cell),
                   b\<lparr>board := (board b)((x, y) \<mapsto> set_attacked cell)\<rparr>)))"

text \<open>A board as \<open>initBoard\<close> shapes it: exactly the cells of the grid exist.\<close>

definition board_wf :: "BattleShipBoard \<Rightarrow> bool" where
  "board_wf b \<longleftrightarrow>
     (\<forall>x y. (board b (x, y) \<noteq> None) =
            (0 \<le> x \<and> x < boardSize b \<and> 0 \<le> y \<and> y < boardSize b))"

section \<open>Settings\<close>

definition shipCountByType :: "nat list" where
  "shipCountByType = [2, 2, 1]"

definition shipSizeByType :: "ShipSize list" where
  "shipSizeByType = [Size1, Size3, Size5]"

definition settings_boardSize :: int where
  "settings_boardSize = 10"

definition buildShipSizeSequence :: "ShipSize list" where
  "buildShipSizeSequence =
     concat (map (\<lambda>(shipCount, sz). replicate shipCount sz)
                 (zip shipCountByType shipSizeByType))"

section \<open>Player\<close>

text \<open>
  A player holds references to two boards; the boards themselves live in the game
  record below, where the ship board of one player is the pin board of the other.
  The player methods therefore take the board they work on as an argument.
\<close>

record BattleShipPlayer =
  playerId :: PLAYER
  ships :: "ShipPiece list"
  shipCount :: int

definition new_BattleShipPlayer :: "PLAYER \<Rightarrow> BattleShipPlayer" where
  "new_BattleShipPlayer pid = \<lparr> playerId = pid, ships = [], shipCount = 0 \<rparr>"

definition Player_settleShip ::
  "ShipSize option \<Rightarrow> ORIENTATION \<Rightarrow> BoardPosition \<Rightarrow> BattleShipPlayer \<Rightarrow> BattleShipBoard
     \<Rightarrow> (error + unit) \<times> BattleShipPlayer \<times> BattleShipBoard" where
  "Player_settleShip sz orientation position p shipBoard =
     (let ship = new_ShipPiece (shipCount p) sz orientation position in
      case Board_settleShip ship shipBoard of
        (Inl e, b') \<Rightarrow> (Inl e, p, b')
      | (Inr u, b') \<Rightarrow>
          (Inr (), p\<lparr>ships := ships p @ [ship], shipCount := shipCount p + 1\<rparr>, b'))"

definition Player_attack ::
  "BoardPosition \<Rightarrow> BattleShipBoard \<Rightarrow> (error + (int \<times> int) option) \<times> BattleShipBoard" where
  "Player_attack target pinBoard = Board_attack target pinBoard"

text \<open>
  Reading \<open>ship.damaged[part]\<close> past the end of the array gives \<open>undefined\<close>, which is
  falsy; writing there extends the array, the holes reading as \<open>undefined\<close> again.
\<close>

definition damaged_at :: "bool list \<Rightarrow> nat \<Rightarrow> bool" where
  "damaged_at ds i = (if i < length ds then ds ! i else False)"

definition mark_damaged :: "bool list \<Rightarrow> nat \<Rightarrow> bool list" where
  "mark_damaged ds i =
     (if i < length ds then ds[i := True]
      else ds @ replicate (i - length ds) False @ [True])"

definition receiveDamage ::
  "int \<Rightarrow> int \<Rightarrow> BattleShipPlayer \<Rightarrow> (error + bool) \<times> BattleShipPlayer" where
  "receiveDamage sid part p =
     (if sid < 0 \<or> sid \<ge> int (length (ships p)) then (Inl InvalidShipId, p)
      else
        (let ship = ships p ! nat sid in
         if part < 0 \<or> (case ship_size ship of None \<Rightarrow> False | Some s \<Rightarrow> part \<ge> size_value s)
         then (Inl InvalidPart, p)
         else if damaged_at (damaged ship) (nat part) then (Inl AlreadyDamaged, p)
         else
           (let ship' = ship\<lparr>damaged := mark_damaged (damaged ship) (nat part),
                              damage := damage ship + 1\<rparr>;
                p' = p\<lparr>ships := (ships p)[nat sid := ship']\<rparr>
            in if (case ship_size ship' of None \<Rightarrow> False | Some s \<Rightarrow> damage ship' = size_value s)
               then (Inr True, p'\<lparr>shipCount := shipCount p' - 1\<rparr>)
               else (Inr False, p'))))"

section \<open>Game\<close>

text \<open>
  \<open>p1Board\<close> is the ship board of player 1 and the pin board of player 2, \<open>p2Board\<close>
  the ship board of player 2 and the pin board of player 1, as the constructor wires
  them.
\<close>

record BattleShipGame =
  p1 :: BattleShipPlayer
  p2 :: BattleShipPlayer
  p1Board :: BattleShipBoard
  p2Board :: BattleShipBoard

definition new_BattleShipGame :: "int \<Rightarrow> BattleShipGame" where
  "new_BattleShipGame n =
     \<lparr> p1 = new_BattleShipPlayer P1, p2 = new_BattleShipPlayer P2,
       p1Board = new_BattleShipBoard n, p2Board = new_BattleShipBoard n \<rparr>"

definition Game_settleShip ::
  "PLAYER \<Rightarrow> ShipSize option \<Rightarrow> ORIENTATION \<Rightarrow> BoardPosition \<Rightarrow> BattleShipGame
     \<Rightarrow> (error + unit) \<times> BattleShipGame" where
  "Game_settleShip player shipSize shipOrientation shipPosition g =
     (if playerId (p1 g) = player then
        (case Player_settleShip shipSize shipOrientation shipPosition (p1 g) (p1Board g) of
           (r, p, b) \<Rightarrow> (r, g\<lparr>p1 := p, p1Board := b\<rparr>))
      else
        (case Player_settleShip shipSize shipOrientation shipPosition (p2 g) (p2Board g) of
           (r, p, b) \<Rightarrow> (r, g\<lparr>p2 := p, p2Board := b\<rparr>)))"

text \<open>The player attacked by \<open>attackerId\<close>, as \<open>attack\<close> resolves the pair.\<close>

definition attacked_player :: "PLAYER \<Rightarrow> BattleShipGame \<Rightarrow> BattleShipPlayer" where
  "attacked_player attackerId g = (if attackerId = P1 then p2 g else p1 g)"

definition pin_board :: "PLAYER \<Rightarrow> BattleShipGame \<Rightarrow> BattleShipBoard" where
  "pin_board attackerId g = (if attackerId = P1 then p2Board g else p1Board g)"

definition put_attacked ::
  "PLAYER \<Rightarrow> BattleShipPlayer \<Rightarrow> BattleShipBoard \<Rightarrow> BattleShipGame \<Rightarrow> BattleShipGame" where
  "put_attacked attackerId p b g =
     (if attackerId = P1 then g\<lparr>p2 := p, p2Board := b\<rparr> else g\<lparr>p1 := p, p1Board := b\<rparr>)"

text \<open>
  \<open>BattleShipGame.attack\<close>. The result of \<open>receiveDamage\<close> is dropped; the answer is
  whether the attacked player's counter is zero afterwards.
\<close>

definition Game_attack ::
  "PLAYER \<Rightarrow> BoardPosition \<Rightarrow> BattleShipGame \<Rightarrow> (error + bool) \<times> BattleShipGame" where
  "Game_attack attackerId target g =
     (case Player_attack target (pin_board attackerId g) of
        (Inl e, b') \<Rightarrow> (Inl e, put_attacked attackerId (attacked_player attackerId g) b' g)
      | (Inr None, b') \<Rightarrow>
          (Inr False, put_attacked attackerId (attacked_player attackerId g) b' g)
      | (Inr (Some (damagedShipId, damagedShipPart)), b') \<Rightarrow>
          (case receiveDamage damagedShipId damagedShipPart (attacked_player attackerId g) of
             (Inl e, p') \<Rightarrow> (Inl e, put_attacked attackerId p' b' g)
           | (Inr destroyed, p') \<Rightarrow>
               (Inr (shipCount p' = 0), put_attacked attackerId p' b' g)))"

text \<open>The game states that the public methods of a new game can produce.\<close>

inductive reachable :: "int \<Rightarrow> BattleShipGame \<Rightarrow> bool" where
  reach_new: "reachable n (new_BattleShipGame n)"
| reach_settle: "reachable n g \<Longrightarrow> reachable n (snd (Game_settleShip pl sz ori pos g))"
| reach_attack: "reachable n g \<Longrightarrow> reachable n (snd (Game_attack pl target g))"

section \<open>Rules\<close>

datatype BSMoveLoc = SHIP_GRID | PIN_GRID

datatype BattleShipEvent =
    BSSelectEvent
  | BSUnselectEvent
  | BSMoveEvent BoardPosition BSMoveLoc
  | BSRotateEvent

text \<open>
  The text of an error command, kept as its parts: the fixed messages, and the two
  diagnostics with the values they interpolate and the failure they report.
\<close>

datatype ErrorLog =
    NoShipsP1
  | NoShipsP2
  | SettleLog PLAYER "ShipSize option" ORIENTATION BoardPosition error
  | AttackLog PLAYER BoardPosition error

datatype BattleShipCommand =
    ChangePlayerCmd
  | MakeShipCmd "ShipSize option"
  | MakePinCmd
  | SelectPinCmd
  | SelectShipCmd
  | MovePinCmd BoardPosition
  | RotateShipCmd
  | MoveShipCmd BoardPosition
  | SettlePinCmd
  | SettleShipCmd
  | ErrorCmd ErrorLog

datatype BattleShipControl =
    EnableSelection | DisableSelection
  | EnableUnselection | DisableUnselection
  | EnableRotation | DisableRotation
  | EnableMove | DisableMove

record ShipCraftState =
  sc_player :: PLAYER
  sc_selected :: bool
  shipSizeSequence :: "ShipSize list"
  shipSizeIterator :: nat
  sc_orientation :: ORIENTATION
  sc_pos :: "BoardPosition option"

record BattleState =
  bt_player :: PLAYER
  bt_selected :: bool
  bt_pos :: "BoardPosition option"

datatype BattleShipState =
    ShipCrafting ShipCraftState
  | Battle BattleState
  | GameOver PLAYER

definition new_ShipCraftState :: "ShipSize list \<Rightarrow> PLAYER \<Rightarrow> ShipCraftState" where
  "new_ShipCraftState sizes player =
     \<lparr> sc_player = player, sc_selected = False, shipSizeSequence = sizes,
       shipSizeIterator = 0, sc_orientation = HORIZONTAL, sc_pos = None \<rparr>"

definition new_BattleState :: BattleState where
  "new_BattleState = \<lparr> bt_player = P1, bt_selected = False, bt_pos = None \<rparr>"

text \<open>\<open>shipSizeSequence[i]\<close>: \<open>undefined\<close> past the end.\<close>

definition size_at :: "ShipSize list \<Rightarrow> nat \<Rightarrow> ShipSize option" where
  "size_at sizes i = (if i < length sizes then Some (sizes ! i) else None)"

text \<open>
  \<open>nextShipSize\<close> answers \<open>null\<close> when the cursor is at the end of the sequence, and
  otherwise the entry under the cursor, which it then advances.
\<close>

datatype 'a nullable = Null | NotNull 'a

definition nextShipSize :: "ShipCraftState \<Rightarrow> ShipSize option nullable \<times> ShipCraftState" where
  "nextShipSize st =
     (if shipSizeIterator st = length (shipSizeSequence st) then (Null, st)
      else (NotNull (size_at (shipSizeSequence st) (shipSizeIterator st)),
            st\<lparr>shipSizeIterator := shipSizeIterator st + 1\<rparr>))"

definition ShipCraft_reset :: "ShipCraftState \<Rightarrow> ShipCraftState" where
  "ShipCraft_reset st =
     st\<lparr>sc_selected := False, shipSizeIterator := 0, sc_orientation := HORIZONTAL,
        sc_pos := None\<rparr>"

definition Battle_reset :: "BattleState \<Rightarrow> BattleState" where
  "Battle_reset st = st\<lparr>bt_selected := False, bt_pos := None\<rparr>"

definition new_BattleShipRules :: BattleShipState where
  "new_BattleShipRules = ShipCrafting (new_ShipCraftState buildShipSizeSequence P1)"

definition state_player :: "BattleShipState \<Rightarrow> PLAYER" where
  "state_player st =
     (case st of ShipCrafting s \<Rightarrow> sc_player s | Battle s \<Rightarrow> bt_player s | GameOver w \<Rightarrow> w)"

text \<open>\<open>clone\<close>; the clone of a battle state is a new battle state, of player 1.\<close>

definition clone :: "BattleShipState \<Rightarrow> BattleShipState" where
  "clone st =
     (case st of
        ShipCrafting s \<Rightarrow> ShipCrafting s
      | Battle s \<Rightarrow> Battle (new_BattleState\<lparr>bt_selected := bt_selected s, bt_pos := bt_pos s\<rparr>)
      | GameOver w \<Rightarrow> GameOver w)"

definition initView :: "BattleShipState \<Rightarrow> error + (BattleShipCommand list \<times> BattleShipState)" where
  "initView st =
     (case st of
        ShipCrafting s \<Rightarrow>
          (case nextShipSize s of
             (NotNull (Some sz), s') \<Rightarrow> Inr ([MakeShipCmd (Some sz)], ShipCrafting s')
           | (NotNull None, s') \<Rightarrow> Inr ([ErrorCmd NoShipsP1], ShipCrafting s')
           | (Null, s') \<Rightarrow> Inr ([ErrorCmd NoShipsP1], ShipCrafting s'))
      | Battle s \<Rightarrow> Inl NotShipCrafting
      | GameOver w \<Rightarrow> Inl NotShipCrafting)"

definition initInteraction :: "BattleShipControl list" where
  "initInteraction = [EnableSelection, EnableUnselection, EnableRotation, EnableMove]"

definition Rules_init ::
  "BattleShipState \<Rightarrow> error + ((BattleShipCommand list \<times> BattleShipControl list) \<times> BattleShipState)" where
  "Rules_init st =
     (case initView st of
        Inl e \<Rightarrow> Inl e
      | Inr (cmds, st') \<Rightarrow> Inr ((cmds, initInteraction), st'))"

definition generateControls :: "BattleShipState \<Rightarrow> BattleShipState \<Rightarrow> BattleShipControl list" where
  "generateControls beforeState gameState =
     (if (case beforeState of ShipCrafting s \<Rightarrow> sc_player s = P2 | _ \<Rightarrow> False)
         \<and> state_player gameState = P1
      then [DisableRotation]
      else if (case beforeState of Battle s \<Rightarrow> True | _ \<Rightarrow> False)
              \<and> (case gameState of GameOver w \<Rightarrow> True | _ \<Rightarrow> False)
      then [DisableSelection, DisableUnselection, DisableMove]
      else [])"

definition processSelect ::
  "BattleShipState \<Rightarrow> BattleShipGame \<Rightarrow> BattleShipCommand list \<times> BattleShipState \<times> BattleShipGame" where
  "processSelect st game =
     (case st of
        ShipCrafting s \<Rightarrow>
          if \<not> sc_selected s then ([SelectShipCmd], ShipCrafting (s\<lparr>sc_selected := True\<rparr>), game)
          else ([], st, game)
      | Battle s \<Rightarrow>
          if \<not> bt_selected s then ([SelectPinCmd], Battle (s\<lparr>bt_selected := True\<rparr>), game)
          else ([], st, game)
      | GameOver w \<Rightarrow> ([], st, game))"

text \<open>
  The part of \<open>processUnselect\<close> that follows a successful \<open>game.settleShip\<close>.
\<close>

definition afterSettle :: "ShipCraftState \<Rightarrow> BattleShipCommand list \<times> BattleShipState" where
  "afterSettle s =
     (case nextShipSize s of
        (NotNull nextSize, s1) \<Rightarrow> ([SettleShipCmd, MakeShipCmd nextSize], ShipCrafting s1)
      | (Null, s1) \<Rightarrow>
          if sc_player s1 = P1 then
            (case nextShipSize ((ShipCraft_reset s1)\<lparr>sc_player := P2\<rparr>) of
               (Null, s2) \<Rightarrow>
                 ([SettleShipCmd, ChangePlayerCmd, ErrorCmd NoShipsP2], ShipCrafting s2)
             | (NotNull nextSize, s2) \<Rightarrow>
                 ([SettleShipCmd, ChangePlayerCmd, MakeShipCmd nextSize], ShipCrafting s2))
          else ([SettleShipCmd], Battle new_BattleState))"

definition processUnselect ::
  "BattleShipState \<Rightarrow> BattleShipGame \<Rightarrow> BattleShipCommand list \<times> BattleShipState \<times> BattleShipGame" where
  "processUnselect st game =
     (case st of
        ShipCrafting s \<Rightarrow>
          if sc_selected s then
            (let player = sc_player s;
                 shipSize = size_at (shipSizeSequence s) (shipSizeIterator s);
                 orientation = sc_orientation s;
                 pos = sc_pos s;
                 s0 = s\<lparr>sc_selected := False\<rparr>
             in case pos of
                  None \<Rightarrow> ([SettleShipCmd], ShipCrafting s0, game)
                | Some position \<Rightarrow>
                    (case Game_settleShip player shipSize orientation position game of
                       (Inl e, game') \<Rightarrow>
                         ([ErrorCmd (SettleLog player shipSize orientation position e)],
                          ShipCrafting s0, game')
                     | (Inr u, game') \<Rightarrow>
                         (case afterSettle s0 of (cmds, st') \<Rightarrow> (cmds, st', game'))))
          else ([], st, game)
      | Battle s \<Rightarrow>
          if bt_selected s then
            (let player = bt_player s; pos = bt_pos s
             in case pos of
                  None \<Rightarrow> ([SettlePinCmd], Battle (s\<lparr>bt_selected := False\<rparr>), game)
                | Some position \<Rightarrow>
                    (case Game_attack player position game of
                       (Inl e, game') \<Rightarrow>
                         ([ErrorCmd (AttackLog player position e)], st, game')
                     | (Inr gameEnded, game') \<Rightarrow>
                         if \<not> gameEnded then
                           ([SettlePinCmd, ChangePlayerCmd, MakePinCmd],
                            Battle (Battle_reset s), game')
                         else ([], GameOver player, game')))
          else ([], st, game)
      | GameOver w \<Rightarrow> ([], st, game))"

definition processRotate ::
  "BattleShipState \<Rightarrow> BattleShipGame \<Rightarrow> BattleShipCommand list \<times> BattleShipState \<times> BattleShipGame" where
  "processRotate st game =
     (case st of
        ShipCrafting s \<Rightarrow>
          if sc_selected s then
            ([RotateShipCmd],
             ShipCrafting (s\<lparr>sc_orientation :=
                (if sc_orientation s = VERTICAL then HORIZONTAL else VERTICAL)\<rparr>), game)
          else ([], st, game)
      | _ \<Rightarrow> ([], st, game))"

definition processMove ::
  "BSMoveLoc \<Rightarrow> BoardPosition \<Rightarrow> BattleShipState \<Rightarrow> BattleShipGame
     \<Rightarrow> BattleShipCommand list \<times> BattleShipState \<times> BattleShipGame" where
  "processMove loc to st game =
     (case st of
        ShipCrafting s \<Rightarrow>
          if loc = SHIP_GRID \<and> sc_selected s then
            ([MoveShipCmd to], ShipCrafting (s\<lparr>sc_pos := Some to\<rparr>), game)
          else ([], st, game)
      | Battle s \<Rightarrow>
          if loc = PIN_GRID \<and> bt_selected s then
            ([MovePinCmd to], Battle (s\<lparr>bt_pos := Some to\<rparr>), game)
          else ([], st, game)
      | GameOver w \<Rightarrow> ([], st, game))"

text \<open>
  \<open>BattleShipRules.apply\<close>: the commands, the controls, and the rules state and the
  game as the event leaves them.
\<close>

definition Rules_apply ::
  "BattleShipEvent \<Rightarrow> BattleShipState \<Rightarrow> BattleShipGame
     \<Rightarrow> (BattleShipCommand list \<times> BattleShipControl list) \<times> BattleShipState \<times> BattleShipGame" where
  "Rules_apply event st game =
     (let beforeState = clone st in
      case (case event of
              BSSelectEvent \<Rightarrow> processSelect st game
            | BSUnselectEvent \<Rightarrow> processUnselect st game
            | BSRotateEvent \<Rightarrow> processRotate st game
            | BSMoveEvent to loc \<Rightarrow> processMove loc to st game)
      of (cmds, st', game') \<Rightarrow> ((cmds, generateControls beforeState st'), st', game'))"

text \<open>A sequence of events, applied in order; the commands of all of them, in order.\<close>

fun run ::
  "BattleShipEvent list \<Rightarrow> BattleShipState \<Rightarrow> BattleShipGame
     \<Rightarrow> BattleShipCommand list \<times> BattleShipState \<times> BattleShipGame" where
  "run [] st game = ([], st, game)"
| "run (e # es) st game =
     (case Rules_apply e st game of
        ((cmds, controls), st', game') \<Rightarrow>
          (case run es st' game' of (cmds', st'', game'') \<Rightarrow> (cmds @ cmds', st'', game'')))"

text \<open>The order of the phases.\<close>

fun phase :: "BattleShipState \<Rightarrow> nat" where
  "phase (ShipCrafting s) = 0"
| "phase (Battle s) = 1"
| "phase (GameOver w) = 2"

section \<open>Auxiliary notions for the statements\<close>

text \<open>Successive calls of \<open>receiveDamage\<close> on one ship, with the result of each.\<close>

fun receiveDamage_seq ::
  "int \<Rightarrow> int list \<Rightarrow> BattleShipPlayer \<Rightarrow> (error + bool) list \<times> BattleShipPlayer" where
  "receiveDamage_seq sid [] p = ([], p)"
| "receiveDamage_seq sid (part # parts) p =
     (case receiveDamage sid part p of
        (r, p') \<Rightarrow>
          (case receiveDamage_seq sid parts p' of (rs, p'') \<Rightarrow> (r # rs, p'')))"




text \<open>A player with one undamaged ship of size 3.\<close>

definition roster3 :: BattleShipPlayer where
  "roster3 = \<lparr> playerId = P2, ships = [new_ShipPiece 0 (Some Size3) HORIZONTAL (0, 1)],
               shipCount = 1 \<rparr>"



text \<open>
  The rules state after \<open>init\<close>, which has taken the first size of the sequence and
  moved the cursor past it.
\<close>

definition started :: BattleShipState where
  "started = ShipCrafting ((new_ShipCraftState buildShipSizeSequence P1)\<lparr>shipSizeIterator := 1\<rparr>)"

text \<open>
  The first player places a ship at \<open>(0, 0)\<close>, then selects the next one and moves it
  to column 9 of row 0.
\<close>

definition placement_events :: "BattleShipEvent list" where
  "placement_events =
     [BSSelectEvent, BSMoveEvent (0, 0) SHIP_GRID, BSUnselectEvent,
      BSSelectEvent, BSMoveEvent (0, 9) SHIP_GRID]"

definition placement_state :: BattleShipState where
  "placement_state = fst (snd (run placement_events started (new_BattleShipGame 10)))"

definition placement_game :: BattleShipGame where
  "placement_game = snd (snd (run placement_events started (new_BattleShipGame 10)))"

text \<open>The first player places five ships, one after the other.\<close>

definition crafting_events :: "BattleShipEvent list" where
  "crafting_events =
     [BSSelectEvent, BSMoveEvent (0, 0) SHIP_GRID, BSUnselectEvent,
      BSSelectEvent, BSMoveEvent (1, 1) SHIP_GRID, BSUnselectEvent,
      BSSelectEvent, BSMoveEvent (2, 1) SHIP_GRID, BSUnselectEvent,
      BSSelectEvent, BSMoveEvent (3, 2) SHIP_GRID, BSUnselectEvent,
      BSSelectEvent, BSMoveEvent (4, 0) SHIP_GRID, BSUnselectEvent]"

section \<open>Properties of the board\<close>

lemma Board_settleShip_failure:
  "fst (Board_settleShip ship b) = Inl e \<Longrightarrow> snd (Board_settleShip ship b) = b"
  by (auto simp: Board_settleShip_def Let_def split: option.splits ORIENTATION.splits if_splits)

lemmas board_eval =
  Board_settleShip_def new_ShipPiece_def new_BattleShipBoard_def half_def
  occupied_check.simps mark_cells.simps

text \<open>
  Claim C8. A call of \<open>settleShip\<close> on a board that ends in a failure, of whatever
  kind, leaves the board exactly as it was: every throw of the method comes before
  its first write.
\<close>

theorem settle_failure_board_unchanged:
  "fst (Board_settleShip ship b) = Inl e \<Longrightarrow> snd (Board_settleShip ship b) = b"
  by (rule Board_settleShip_failure)

theorem settle_failure_board_unchanged_witness:
  "fst (Board_settleShip (new_ShipPiece 1 (Some Size1) VERTICAL (0, 5))
          (snd (Board_settleShip (new_ShipPiece 0 (Some Size3) HORIZONTAL (0, 5))
                  (new_BattleShipBoard 10)))) = Inl Overlap
   \<and> snd (Board_settleShip (new_ShipPiece 1 (Some Size1) VERTICAL (0, 5))
          (snd (Board_settleShip (new_ShipPiece 0 (Some Size3) HORIZONTAL (0, 5))
                  (new_BattleShipBoard 10))))
     = snd (Board_settleShip (new_ShipPiece 0 (Some Size3) HORIZONTAL (0, 5))
              (new_BattleShipBoard 10))"
proof -
  have failed:
    "fst (Board_settleShip (new_ShipPiece 1 (Some Size1) VERTICAL (0, 5))
            (snd (Board_settleShip (new_ShipPiece 0 (Some Size3) HORIZONTAL (0, 5))
                    (new_BattleShipBoard 10)))) = Inl Overlap"
    by (simp add: board_eval)
  from failed settle_failure_board_unchanged [OF failed] show ?thesis by simp
qed

text \<open>
  Claim C3, on the code. A ship of size 3 with id 0, settled horizontally with its
  anchor at \<open>(0, 5)\<close> on an empty board of size 10, occupies the cells \<open>(0, 4)\<close>,
  \<open>(0, 5)\<close> and \<open>(0, 6)\<close>, and the part number written into each of them is the
  column of the cell (4, 5, 6), not its index along the ship (0, 1, 2).
\<close>

theorem settle_writes_coordinate_as_part:
  "fst (Board_settleShip (new_ShipPiece 0 (Some Size3) HORIZONTAL (0, 5))
          (new_BattleShipBoard 10)) = Inr ()
   \<and> map (board (snd (Board_settleShip (new_ShipPiece 0 (Some Size3) HORIZONTAL (0, 5))
                         (new_BattleShipBoard 10))))
         [(0, 4), (0, 5), (0, 6)]
     = [Some (ShipBoardCell 0 4 False), Some (ShipBoardCell 0 5 False),
        Some (ShipBoardCell 0 6 False)]"
  by (simp add: board_eval)

text \<open>
  Claim C4, on the code. On a board of size 10 the anchor \<open>(0, 10)\<close> is outside the
  grid, yet the anchor check lets it through (it tests \<open>y > boardSize\<close>); a vertical
  ship of size 1 there then fails when the occupancy loop reads the missing cell
  \<open>board[0][10]\<close>, with a \<open>TypeError\<close> and not with the out-of-bounds error.
\<close>

theorem settle_anchor_column_boardSize:
  "Board_settleShip (new_ShipPiece 0 (Some Size1) VERTICAL (0, 10)) (new_BattleShipBoard 10)
     = (Inl TypeError, new_BattleShipBoard 10)"
  by (simp add: board_eval)

lemma board_wf_new: "board_wf (new_BattleShipBoard n)"
  by (simp add: board_wf_def new_BattleShipBoard_def)

lemma board_wf_inside:
  "board_wf b \<Longrightarrow> board b (x, y) = Some c \<Longrightarrow>
     0 \<le> x \<and> x < boardSize b \<and> 0 \<le> y \<and> y < boardSize b"
  unfolding board_wf_def by (metis option.distinct(1))

lemma board_wf_defined:
  "board_wf b \<Longrightarrow> 0 \<le> x \<Longrightarrow> x < boardSize b \<Longrightarrow> 0 \<le> y \<Longrightarrow> y < boardSize b \<Longrightarrow>
     \<exists>c. board b (x, y) = Some c"
  unfolding board_wf_def by (metis option.exhaust)

lemma mark_cells_boardSize: "boardSize (mark_cells b sid at lo hi) = boardSize b"
proof (induction b sid at lo hi rule: mark_cells.induct)
  case (1 b sid at pos hi)
  then show ?case by (subst mark_cells.simps) simp
qed

lemma mark_cells_defined:
  "(board (mark_cells b sid at lo hi) q \<noteq> None)
     = (board b q \<noteq> None \<or> (\<exists>pos. lo \<le> pos \<and> pos \<le> hi \<and> at pos = q))"
proof (induction b sid at lo hi rule: mark_cells.induct)
  case (1 b sid at pos hi)
  show ?case
  proof (cases "pos \<le> hi")
    case True
    have split: "(\<exists>r. pos \<le> r \<and> r \<le> hi \<and> at r = q)
        = (at pos = q \<or> (\<exists>r. pos + 1 \<le> r \<and> r \<le> hi \<and> at r = q))"
    proof
      assume "\<exists>r. pos \<le> r \<and> r \<le> hi \<and> at r = q"
      then obtain r where r: "pos \<le> r" "r \<le> hi" "at r = q" by blast
      then have "r = pos \<or> pos + 1 \<le> r" by linarith
      with r show "at pos = q \<or> (\<exists>r. pos + 1 \<le> r \<and> r \<le> hi \<and> at r = q)" by blast
    next
      assume "at pos = q \<or> (\<exists>r. pos + 1 \<le> r \<and> r \<le> hi \<and> at r = q)"
      then show "\<exists>r. pos \<le> r \<and> r \<le> hi \<and> at r = q"
      proof
        assume "at pos = q" with True show ?thesis by blast
      next
        assume "\<exists>r. pos + 1 \<le> r \<and> r \<le> hi \<and> at r = q"
        then obtain r where "pos + 1 \<le> r" "r \<le> hi" "at r = q" by blast
        then have "pos \<le> r \<and> r \<le> hi \<and> at r = q" by simp
        then show ?thesis by blast
      qed
    qed
    let ?b' = "b\<lparr>board := (board b)(at pos \<mapsto> ShipBoardCell sid pos False)\<rparr>"
    have unfold: "mark_cells b sid at pos hi = mark_cells ?b' sid at (pos + 1) hi"
      by (subst mark_cells.simps) (simp add: True)
    have "(board (mark_cells b sid at pos hi) q \<noteq> None)
        = (board ?b' q \<noteq> None \<or> (\<exists>r. pos + 1 \<le> r \<and> r \<le> hi \<and> at r = q))"
      unfolding unfold by (rule "1.IH" [OF True])
    also have "\<dots> = (board b q \<noteq> None \<or> (at pos = q \<or> (\<exists>r. pos + 1 \<le> r \<and> r \<le> hi \<and> at r = q)))"
      by auto
    also have "\<dots> = (board b q \<noteq> None \<or> (\<exists>r. pos \<le> r \<and> r \<le> hi \<and> at r = q))"
      unfolding split ..
    finally show ?thesis .
  next
    case False
    then show ?thesis by (subst mark_cells.simps) auto
  qed
qed

text \<open>
  What a successful \<open>settleShip\<close> writes, for any ship: the cell at offset \<open>k\<close> from the
  anchor carries the coordinate of that cell along the axis of the ship.
\<close>

lemma mark_cells_at:
  "inj at \<Longrightarrow>
     board (mark_cells b sid at lo hi) (at pos)
       = (if lo \<le> pos \<and> pos \<le> hi then Some (ShipBoardCell sid pos False)
          else board b (at pos))"
proof (induction b sid at lo hi rule: mark_cells.induct)
  case (1 b sid at lo hi)
  show ?case
  proof (cases "lo \<le> hi")
    case True
    let ?b' = "b\<lparr>board := (board b)(at lo \<mapsto> ShipBoardCell sid lo False)\<rparr>"
    have unfold: "mark_cells b sid at lo hi = mark_cells ?b' sid at (lo + 1) hi"
      by (subst mark_cells.simps) (simp add: True)
    have eq: "(at lo = at pos) = (lo = pos)"
      using "1.prems" by (auto dest: injD)
    show ?thesis
      unfolding unfold "1.IH" [OF True "1.prems"]
      using True eq by auto
  next
    case False
    then show ?thesis by (subst mark_cells.simps) auto
  qed
qed

lemma Board_settleShip_parts:
  assumes ok: "fst (Board_settleShip ship b) = Inr ()"
    and sz: "ship_size ship = Some s"
    and xy: "ship_position ship = (x, y)"
    and k: "- half s \<le> k" "k \<le> half s"
  shows "board (snd (Board_settleShip ship b))
           (case ship_orientation ship of HORIZONTAL \<Rightarrow> (x, y + k) | VERTICAL \<Rightarrow> (x + k, y))
         = Some (ShipBoardCell (ship_id ship)
                   (case ship_orientation ship of HORIZONTAL \<Rightarrow> y + k | VERTICAL \<Rightarrow> x + k)
                   False)"
proof (cases "ship_orientation ship")
  case HORIZONTAL
  have inj: "inj (\<lambda>pos::int. (x, pos))" by (simp add: inj_def)
  from ok sz xy HORIZONTAL
  have res: "snd (Board_settleShip ship b)
           = mark_cells b (ship_id ship) (\<lambda>pos. (x, pos)) (y - half s) (y + half s)"
    by (auto simp: Board_settleShip_def Let_def split: if_splits option.splits)
  show ?thesis
    unfolding res using mark_cells_at [OF inj, of b "ship_id ship" "y - half s" "y + half s" "y + k"] k HORIZONTAL
    by simp
next
  case VERTICAL
  have inj: "inj (\<lambda>pos::int. (pos, y))" by (simp add: inj_def)
  from ok sz xy VERTICAL
  have res: "snd (Board_settleShip ship b)
           = mark_cells b (ship_id ship) (\<lambda>pos. (pos, y)) (x - half s) (x + half s)"
    by (auto simp: Board_settleShip_def Let_def split: if_splits option.splits)
  show ?thesis
    unfolding res using mark_cells_at [OF inj, of b "ship_id ship" "x - half s" "x + half s" "x + k"] k VERTICAL
    by simp
qed

lemma occupied_check_None:
  "occupied_check b at lo hi = None \<Longrightarrow> lo \<le> pos \<Longrightarrow> pos \<le> hi \<Longrightarrow> board b (at pos) \<noteq> None"
proof (induction b at lo hi rule: occupied_check.induct)
  case (1 b at lo hi)
  from "1.prems" have le: "lo \<le> hi" by simp
  from "1.prems"(1) le obtain c where c: "board b (at lo) = Some c" "\<not> is_ship c"
      and rest: "occupied_check b at (lo + 1) hi = None"
    by (subst (asm) occupied_check.simps) (auto split: option.splits if_splits)
  show ?case
  proof (cases "pos = lo")
    case True
    with c show ?thesis by simp
  next
    case False
    with "1.prems" have "lo + 1 \<le> pos" by simp
    with "1.IH" [OF le c(1) c(2) rest] "1.prems" show ?thesis by simp
  qed
qed

lemma board_wf_settle:
  assumes wf: "board_wf b"
  shows "board_wf (snd (Board_settleShip ship b))"
proof (cases "fst (Board_settleShip ship b)")
  case (Inl e)
  then show ?thesis using Board_settleShip_failure wf by simp
next
  case (Inr u)
  obtain x y where xy: "ship_position ship = (x, y)" by (cases "ship_position ship")
  show ?thesis
  proof (cases "ship_size ship")
    case None
    then show ?thesis using wf by (simp add: Board_settleShip_def Let_def)
  next
    case (Some s)
    show ?thesis
    proof (cases "ship_orientation ship")
      case HORIZONTAL
      from Inr Some HORIZONTAL xy
      have ok: "occupied_check b (\<lambda>pos. (x, pos)) (y - half s) (y + half s) = None"
        and res: "snd (Board_settleShip ship b)
           = mark_cells b (ship_id ship) (\<lambda>pos. (x, pos)) (y - half s) (y + half s)"
        by (auto simp: Board_settleShip_def Let_def split: if_splits option.splits)
      show ?thesis
        unfolding res board_wf_def mark_cells_boardSize mark_cells_defined
        using wf occupied_check_None [OF ok] unfolding board_wf_def by blast
    next
      case VERTICAL
      from Inr Some VERTICAL xy
      have ok: "occupied_check b (\<lambda>pos. (pos, y)) (x - half s) (x + half s) = None"
        and res: "snd (Board_settleShip ship b)
           = mark_cells b (ship_id ship) (\<lambda>pos. (pos, y)) (x - half s) (x + half s)"
        by (auto simp: Board_settleShip_def Let_def split: if_splits option.splits)
      show ?thesis
        unfolding res board_wf_def mark_cells_boardSize mark_cells_defined
        using wf occupied_check_None [OF ok] unfolding board_wf_def by blast
    qed
  qed
qed

lemma board_wf_attack: "board_wf b \<Longrightarrow> board_wf (snd (Board_attack target b))"
  by (auto simp: Board_attack_def Let_def board_wf_def split: option.splits)

lemma attacked_set_attacked [simp]: "attacked (set_attacked c)"
  by (cases c) simp_all

text \<open>
  Claim C7. On a board shaped as \<open>initBoard\<close> shapes it, \<open>attack\<close> fails with the
  out-of-bounds error exactly when the target is outside the grid, and with the
  already-attacked error exactly when the target is inside and its cell has been
  attacked; on a fresh water cell it answers \<open>null\<close>, on a fresh ship cell the pair
  of the ship id and the part, and in both cases it sets the flag of the cell and
  nothing else. A second attack on any position of the grid fails with the
  already-attacked error and leaves the board as the first one left it.
\<close>

theorem Board_attack_spec:
  "board_wf b \<longrightarrow>
     ((fst (Board_attack (x, y) b) = Inl OutOfBounds)
        = (\<not> (0 \<le> x \<and> x < boardSize b \<and> 0 \<le> y \<and> y < boardSize b)))
   \<and> ((fst (Board_attack (x, y) b) = Inl AlreadyAttacked)
        = (0 \<le> x \<and> x < boardSize b \<and> 0 \<le> y \<and> y < boardSize b
           \<and> (\<exists>c. board b (x, y) = Some c \<and> attacked c)))
   \<and> (board b (x, y) = Some (WaterBoardCell False) \<longrightarrow>
        Board_attack (x, y) b
          = (Inr None, b\<lparr>board := (board b)((x, y) \<mapsto> WaterBoardCell True)\<rparr>))
   \<and> (board b (x, y) = Some (ShipBoardCell i p False) \<longrightarrow>
        Board_attack (x, y) b
          = (Inr (Some (i, p)), b\<lparr>board := (board b)((x, y) \<mapsto> ShipBoardCell i p True)\<rparr>))
   \<and> (0 \<le> x \<and> x < boardSize b \<and> 0 \<le> y \<and> y < boardSize b \<longrightarrow>
        Board_attack (x, y) (snd (Board_attack (x, y) b))
          = (Inl AlreadyAttacked, snd (Board_attack (x, y) b)))"
proof (intro impI conjI)
  assume wf: "board_wf b"
  show "(fst (Board_attack (x, y) b) = Inl OutOfBounds)
        = (\<not> (0 \<le> x \<and> x < boardSize b \<and> 0 \<le> y \<and> y < boardSize b))"
    using board_wf_defined [OF wf, of x y]
    by (auto simp: Board_attack_def Let_def split: option.splits)
  show "(fst (Board_attack (x, y) b) = Inl AlreadyAttacked)
        = (0 \<le> x \<and> x < boardSize b \<and> 0 \<le> y \<and> y < boardSize b
           \<and> (\<exists>c. board b (x, y) = Some c \<and> attacked c))"
    by (auto simp: Board_attack_def Let_def split: option.splits)
  show "Board_attack (x, y) b
          = (Inr None, b\<lparr>board := (board b)((x, y) \<mapsto> WaterBoardCell True)\<rparr>)"
    if "board b (x, y) = Some (WaterBoardCell False)"
    using that board_wf_inside [OF wf that]
    by (simp add: Board_attack_def Let_def)
  show "Board_attack (x, y) b
          = (Inr (Some (i, p)), b\<lparr>board := (board b)((x, y) \<mapsto> ShipBoardCell i p True)\<rparr>)"
    if "board b (x, y) = Some (ShipBoardCell i p False)"
    using that board_wf_inside [OF wf that]
    by (simp add: Board_attack_def Let_def)
  show "Board_attack (x, y) (snd (Board_attack (x, y) b))
          = (Inl AlreadyAttacked, snd (Board_attack (x, y) b))"
    if "0 \<le> x \<and> x < boardSize b \<and> 0 \<le> y \<and> y < boardSize b"
    using that board_wf_defined [OF wf, of x y]
    by (auto simp: Board_attack_def Let_def split: option.splits)
qed

theorem Board_attack_spec_witness:
  "board_wf (snd (Board_settleShip (new_ShipPiece 0 (Some Size3) HORIZONTAL (0, 5))
                    (new_BattleShipBoard 10)))
   \<and> fst (Board_attack (0, 10) (snd (Board_settleShip (new_ShipPiece 0 (Some Size3) HORIZONTAL (0, 5))
                    (new_BattleShipBoard 10)))) = Inl OutOfBounds
   \<and> fst (Board_attack (2, 3) (snd (Board_settleShip (new_ShipPiece 0 (Some Size3) HORIZONTAL (0, 5))
                    (new_BattleShipBoard 10)))) = Inr None
   \<and> fst (Board_attack (0, 4) (snd (Board_settleShip (new_ShipPiece 0 (Some Size3) HORIZONTAL (0, 5))
                    (new_BattleShipBoard 10)))) = Inr (Some (0, 4))
   \<and> fst (Board_attack (0, 4) (snd (Board_attack (0, 4)
             (snd (Board_settleShip (new_ShipPiece 0 (Some Size3) HORIZONTAL (0, 5))
                    (new_BattleShipBoard 10)))))) = Inl AlreadyAttacked"
proof -
  let ?b = "snd (Board_settleShip (new_ShipPiece 0 (Some Size3) HORIZONTAL (0, 5))
                    (new_BattleShipBoard 10))"
  have wf: "board_wf ?b" by (rule board_wf_settle [OF board_wf_new])
  have bs: "boardSize ?b = 10" by (simp add: board_eval)
  have water: "board ?b (2, 3) = Some (WaterBoardCell False)" by (simp add: board_eval)
  have ship: "board ?b (0, 4) = Some (ShipBoardCell 0 4 False)" by (simp add: board_eval)
  from Board_attack_spec [of ?b 0 10 0 0] wf bs
  have 1: "fst (Board_attack (0, 10) ?b) = Inl OutOfBounds" by simp
  from Board_attack_spec [of ?b 2 3 0 0] wf water
  have 2: "fst (Board_attack (2, 3) ?b) = Inr None" by simp
  from Board_attack_spec [of ?b 0 4 0 4] wf ship
  have 3: "fst (Board_attack (0, 4) ?b) = Inr (Some (0, 4))" by simp
  from Board_attack_spec [of ?b 0 4 0 4] wf
  have "0 \<le> (0::int) \<and> 0 < boardSize ?b \<and> 0 \<le> (4::int) \<and> 4 < boardSize ?b \<longrightarrow>
        Board_attack (0, 4) (snd (Board_attack (0, 4) ?b))
          = (Inl AlreadyAttacked, snd (Board_attack (0, 4) ?b))"
    by blast
  with bs have 4: "fst (Board_attack (0, 4) (snd (Board_attack (0, 4) ?b))) = Inl AlreadyAttacked"
    by simp
  from wf 1 2 3 4 show ?thesis by blast
qed

section \<open>Properties of the player\<close>

lemma size_value_pos: "0 < size_value s"
  by (cases s) simp_all

lemma size_value_neq0 [simp]: "size_value s \<noteq> 0" "0 \<noteq> size_value s"
  by (cases s; simp)+

lemma receiveDamage_success:
  assumes "0 \<le> sid" "sid < int (length (ships p))"
    and "ship_size (ships p ! nat sid) = Some s"
    and "0 \<le> part" "part < size_value s"
    and "\<not> damaged_at (damaged (ships p ! nat sid)) (nat part)"
  shows "receiveDamage sid part p =
     (Inr (damage (ships p ! nat sid) + 1 = size_value s),
      p\<lparr>ships := (ships p)[nat sid := (ships p ! nat sid)
            \<lparr>damaged := mark_damaged (damaged (ships p ! nat sid)) (nat part),
             damage := damage (ships p ! nat sid) + 1\<rparr>],
        shipCount := shipCount p - (if damage (ships p ! nat sid) + 1 = size_value s then 1 else 0)\<rparr>)"
  using assms by (simp add: receiveDamage_def Let_def)

lemma receiveDamage_seq_general:
  assumes "0 \<le> sid" "sid < int (length (ships p))"
    and "ship_size (ships p ! nat sid) = Some s"
    and "length (damaged (ships p ! nat sid)) = nat (size_value s)"
    and "distinct parts"
    and "\<forall>x\<in>set parts. 0 \<le> x \<and> x < size_value s \<and> \<not> damaged (ships p ! nat sid) ! nat x"
    and "damage (ships p ! nat sid) + int (length parts) \<le> size_value s"
  shows "fst (receiveDamage_seq sid parts p)
           = map (\<lambda>k. Inr (damage (ships p ! nat sid) + int k + 1 = size_value s)) [0..<length parts]
       \<and> shipCount (snd (receiveDamage_seq sid parts p))
           = shipCount p - (if parts \<noteq> [] \<and> damage (ships p ! nat sid) + int (length parts) = size_value s
                            then 1 else 0)"
  using assms
proof (induction parts arbitrary: p)
  case Nil
  then show ?case by simp
next
  case (Cons x xs)
  let ?ship = "ships p ! nat sid"
  let ?ship' = "?ship\<lparr>damaged := mark_damaged (damaged ?ship) (nat x), damage := damage ?ship + 1\<rparr>"
  let ?p' = "p\<lparr>ships := (ships p)[nat sid := ?ship'],
        shipCount := shipCount p - (if damage ?ship + 1 = size_value s then 1 else 0)\<rparr>"
  from Cons.prems have x: "0 \<le> x" "x < size_value s" "\<not> damaged ?ship ! nat x"
    by simp_all
  then have nd: "\<not> damaged_at (damaged ?ship) (nat x)"
    using Cons.prems(4) by (simp add: damaged_at_def)
  have step: "receiveDamage sid x p = (Inr (damage ?ship + 1 = size_value s), ?p')"
    using receiveDamage_success [OF Cons.prems(1,2,3) x(1,2) nd] .
  have inrange: "nat sid < length (ships p)" using Cons.prems(1,2) by simp
  have xin: "nat x < length (damaged ?ship)" using x Cons.prems(4) by simp
  have ship': "ships ?p' ! nat sid = ?ship'" using inrange by simp
  have md: "mark_damaged (damaged ?ship) (nat x) = (damaged ?ship)[nat x := True]"
    using xin by (simp add: mark_damaged_def)
  have rest: "\<forall>y\<in>set xs. 0 \<le> y \<and> y < size_value s \<and> \<not> damaged (ships ?p' ! nat sid) ! nat y"
  proof
    fix y assume y: "y \<in> set xs"
    with Cons.prems have yy: "0 \<le> y" "y < size_value s" "\<not> damaged ?ship ! nat y" "y \<noteq> x"
      by auto
    then have "nat y \<noteq> nat x" using x(1) by simp
    then show "0 \<le> y \<and> y < size_value s \<and> \<not> damaged (ships ?p' ! nat sid) ! nat y"
      using yy ship' md by simp
  qed
  have IH: "fst (receiveDamage_seq sid xs ?p')
           = map (\<lambda>k. Inr (damage (ships ?p' ! nat sid) + int k + 1 = size_value s)) [0..<length xs]
       \<and> shipCount (snd (receiveDamage_seq sid xs ?p'))
           = shipCount ?p' - (if xs \<noteq> [] \<and> damage (ships ?p' ! nat sid) + int (length xs) = size_value s
                            then 1 else 0)"
  proof (rule Cons.IH)
    show "0 \<le> sid" by fact
    show "sid < int (length (ships ?p'))" using Cons.prems(2) by simp
    show "ship_size (ships ?p' ! nat sid) = Some s" using ship' Cons.prems(3) by simp
    show "length (damaged (ships ?p' ! nat sid)) = nat (size_value s)"
      using ship' md Cons.prems(4) by simp
    show "distinct xs" using Cons.prems(5) by simp
    show "\<forall>y\<in>set xs. 0 \<le> y \<and> y < size_value s \<and> \<not> damaged (ships ?p' ! nat sid) ! nat y"
      by (rule rest)
    show "damage (ships ?p' ! nat sid) + int (length xs) \<le> size_value s"
      using ship' Cons.prems(7) by simp
  qed
  have dmg': "damage (ships ?p' ! nat sid) = damage ?ship + 1" using ship' by simp
  have bound: "damage ?ship + 1 + int (length xs) \<le> size_value s" using Cons.prems(7) by simp
  have fst_eq: "fst (receiveDamage_seq sid (x # xs) p)
      = Inr (damage ?ship + 1 = size_value s) # fst (receiveDamage_seq sid xs ?p')"
    by (simp add: step split: prod.splits)
  have snd_eq: "snd (receiveDamage_seq sid (x # xs) p) = snd (receiveDamage_seq sid xs ?p')"
    by (simp add: step split: prod.splits)
  have "fst (receiveDamage_seq sid (x # xs) p)
      = map (\<lambda>k. Inr (damage ?ship + int k + 1 = size_value s)) [0..<length (x # xs)]"
    unfolding fst_eq conjunct1 [OF IH] dmg'
    by (simp add: map_upt_Suc del: upt_Suc)
  moreover have "shipCount (snd (receiveDamage_seq sid (x # xs) p))
      = shipCount p - (if x # xs \<noteq> [] \<and> damage ?ship + int (length (x # xs)) = size_value s then 1 else 0)"
    unfolding snd_eq conjunct2 [OF IH] dmg'
    using bound by (cases xs) auto
  ultimately show ?case by blast
qed

lemma damaged_at_mark_damaged:
  "damaged_at (mark_damaged ds i) j = (j = i \<or> damaged_at ds j)"
  by (auto simp: damaged_at_def mark_damaged_def nth_append nth_list_update)

lemma mark_damaged_in_range:
  "i < length ds \<Longrightarrow> mark_damaged ds i = ds[i := True]"
  by (simp add: mark_damaged_def)

lemma receiveDamage_repeat:
  assumes "0 \<le> sid" "sid < int (length (ships p))"
    and "ship_size (ships p ! nat sid) = Some s"
    and "0 \<le> part" "part < size_value s"
    and "damaged_at (damaged (ships p ! nat sid)) (nat part)"
  shows "receiveDamage sid part p = (Inl AlreadyDamaged, p)"
  using assms by (simp add: receiveDamage_def Let_def)

text \<open>
  The state of the ship after a successful call: the flag of the part is set, every
  other flag is as before, the damage is one more, and the same call again fails.
\<close>

lemma receiveDamage_marks:
  assumes r: "0 \<le> sid" "sid < int (length (ships p))"
    and sz: "ship_size (ships p ! nat sid) = Some s"
    and pt: "0 \<le> part" "part < size_value s"
    and nd: "\<not> damaged_at (damaged (ships p ! nat sid)) (nat part)"
  shows "damaged_at (damaged (ships (snd (receiveDamage sid part p)) ! nat sid)) j
           = (j = nat part \<or> damaged_at (damaged (ships p ! nat sid)) j)"
    and "nat part < length (damaged (ships p ! nat sid)) \<Longrightarrow>
           damaged (ships (snd (receiveDamage sid part p)) ! nat sid)
             = (damaged (ships p ! nat sid))[nat part := True]"
    and "damage (ships (snd (receiveDamage sid part p)) ! nat sid)
           = damage (ships p ! nat sid) + 1"
    and "receiveDamage sid part (snd (receiveDamage sid part p))
           = (Inl AlreadyDamaged, snd (receiveDamage sid part p))"
proof -
  let ?ship = "ships p ! nat sid"
  let ?ship' = "?ship\<lparr>damaged := mark_damaged (damaged ?ship) (nat part),
                         damage := damage ?ship + 1\<rparr>"
  let ?p' = "snd (receiveDamage sid part p)"
  have i: "nat sid < length (ships p)" using r by simp
  have s': "ships ?p' ! nat sid = ?ship'"
    unfolding receiveDamage_success [OF r sz pt nd] using i by simp
  have len': "length (ships ?p') = length (ships p)"
    unfolding receiveDamage_success [OF r sz pt nd] by simp
  show "damaged_at (damaged (ships ?p' ! nat sid)) j
           = (j = nat part \<or> damaged_at (damaged ?ship) j)"
    unfolding s' by (simp add: damaged_at_mark_damaged)
  show "damaged (ships ?p' ! nat sid) = (damaged ?ship)[nat part := True]"
    if "nat part < length (damaged ?ship)"
    unfolding s' using that by (simp add: mark_damaged_in_range)
  show "damage (ships ?p' ! nat sid) = damage ?ship + 1"
    unfolding s' by simp
  show "receiveDamage sid part ?p' = (Inl AlreadyDamaged, ?p')"
  proof (rule receiveDamage_repeat)
    show "0 \<le> sid" "0 \<le> part" "part < size_value s" by fact+
    show "sid < int (length (ships ?p'))" using r len' by simp
    show "ship_size (ships ?p' ! nat sid) = Some s" unfolding s' using sz by simp
    show "damaged_at (damaged (ships ?p' ! nat sid)) (nat part)"
      unfolding s' by (simp add: damaged_at_mark_damaged)
  qed
qed

text \<open>
  Successive calls on one ship, with \<open>S\<close> the set of the parts already marked: a call
  on a marked part fails and changes nothing, a call on another part marks it.
\<close>

lemma receiveDamage_seq_marks:
  assumes "0 \<le> sid" "sid < int (length (ships p))"
    and "ship_size (ships p ! nat sid) = Some s"
    and "length (damaged (ships p ! nat sid)) = nat (size_value s)"
    and "\<forall>j<nat (size_value s). damaged (ships p ! nat sid) ! j = (int j \<in> S)"
    and "S \<subseteq> {0..<size_value s}"
    and "damage (ships p ! nat sid) = int (card S)"
    and "set xs \<subseteq> {0..<size_value s}"
  shows "fst (receiveDamage_seq sid xs p)
           = map (\<lambda>k. if xs ! k \<in> S \<union> set (take k xs) then Inl AlreadyDamaged
                       else Inr (int (card (S \<union> set (take (Suc k) xs))) = size_value s))
                 [0..<length xs]
       \<and> ship_size (ships (snd (receiveDamage_seq sid xs p)) ! nat sid) = Some s
       \<and> length (damaged (ships (snd (receiveDamage_seq sid xs p)) ! nat sid))
           = nat (size_value s)
       \<and> (\<forall>j<nat (size_value s).
             damaged (ships (snd (receiveDamage_seq sid xs p)) ! nat sid) ! j
               = (int j \<in> S \<union> set xs))
       \<and> damage (ships (snd (receiveDamage_seq sid xs p)) ! nat sid)
           = int (card (S \<union> set xs))"
  using assms
proof (induction xs arbitrary: p S)
  case Nil
  then show ?case by simp
next
  case (Cons x xs)
  let ?ship = "ships p ! nat sid"
  let ?N = "size_value s"
  from Cons.prems(8) have x: "0 \<le> x" "x < ?N" and xs: "set xs \<subseteq> {0..<?N}" by auto
  have xin: "nat x < nat ?N" using x by simp
  have flag: "damaged ?ship ! nat x = (x \<in> S)"
    using Cons.prems(5) xin x by simp
  have dat: "damaged_at (damaged ?ship) (nat x) = (x \<in> S)"
    using flag xin Cons.prems(4) by (simp add: damaged_at_def)
  have shift: "map f [0..<length (x # xs)] = f 0 # map (\<lambda>k. f (Suc k)) [0..<length xs]"
    for f :: "nat \<Rightarrow> error + bool"
    by (simp add: map_upt_Suc del: upt_Suc)
  show ?case
  proof (cases "x \<in> S")
    case True
    have step: "receiveDamage sid x p = (Inl AlreadyDamaged, p)"
      using receiveDamage_repeat [OF Cons.prems(1,2,3) x] dat True by simp
    have fst_eq: "fst (receiveDamage_seq sid (x # xs) p)
        = Inl AlreadyDamaged # fst (receiveDamage_seq sid xs p)"
      by (simp add: step split: prod.splits)
    have snd_eq: "snd (receiveDamage_seq sid (x # xs) p) = snd (receiveDamage_seq sid xs p)"
      by (simp add: step split: prod.splits)
    note IH = Cons.IH [OF Cons.prems(1,2,3,4,5,6,7) xs]
    have absorb: "insert x (S \<union> A) = S \<union> A" for A using True by blast
    show ?thesis
      unfolding fst_eq snd_eq shift
      using IH True by (simp add: absorb)
  next
    case False
    let ?ship' = "?ship\<lparr>damaged := mark_damaged (damaged ?ship) (nat x),
                           damage := damage ?ship + 1\<rparr>"
    let ?p' = "p\<lparr>ships := (ships p)[nat sid := ?ship'],
        shipCount := shipCount p - (if damage ?ship + 1 = ?N then 1 else 0)\<rparr>"
    have step: "receiveDamage sid x p = (Inr (damage ?ship + 1 = ?N), ?p')"
      using receiveDamage_success [OF Cons.prems(1,2,3) x] dat False by simp
    have fst_eq: "fst (receiveDamage_seq sid (x # xs) p)
        = Inr (damage ?ship + 1 = ?N) # fst (receiveDamage_seq sid xs ?p')"
      by (simp add: step split: prod.splits)
    have snd_eq: "snd (receiveDamage_seq sid (x # xs) p) = snd (receiveDamage_seq sid xs ?p')"
      by (simp add: step split: prod.splits)
    have inrange: "nat sid < length (ships p)" using Cons.prems(1,2) by simp
    have ship': "ships ?p' ! nat sid = ?ship'" using inrange by simp
    have md: "mark_damaged (damaged ?ship) (nat x) = (damaged ?ship)[nat x := True]"
      using xin Cons.prems(4) by (simp add: mark_damaged_def)
    have fin: "finite S" using Cons.prems(6) by (rule finite_subset) simp
    have card': "int (card (insert x S)) = int (card S) + 1"
      using fin False by simp
    have flags': "\<forall>j<nat ?N. damaged (ships ?p' ! nat sid) ! j = (int j \<in> insert x S)"
    proof (intro allI impI)
      fix j assume j: "j < nat ?N"
      have jl: "j < length (damaged ?ship)" using j Cons.prems(4) by simp
      have d': "damaged (ships ?p' ! nat sid) = (damaged ?ship)[nat x := True]"
        using ship' md by simp
      show "damaged (ships ?p' ! nat sid) ! j = (int j \<in> insert x S)"
      proof (cases "j = nat x")
        case True
        then have "int j = x" using x by simp
        with True jl show ?thesis unfolding d' by simp
      next
        case False
        then have "int j \<noteq> x" using x by auto
        with False jl j Cons.prems(5) show ?thesis unfolding d' by simp
      qed
    qed
    have IH: "fst (receiveDamage_seq sid xs ?p')
           = map (\<lambda>k. if xs ! k \<in> insert x S \<union> set (take k xs) then Inl AlreadyDamaged
                       else Inr (int (card (insert x S \<union> set (take (Suc k) xs))) = ?N))
                 [0..<length xs]
       \<and> ship_size (ships (snd (receiveDamage_seq sid xs ?p')) ! nat sid) = Some s
       \<and> length (damaged (ships (snd (receiveDamage_seq sid xs ?p')) ! nat sid)) = nat ?N
       \<and> (\<forall>j<nat ?N.
             damaged (ships (snd (receiveDamage_seq sid xs ?p')) ! nat sid) ! j
               = (int j \<in> insert x S \<union> set xs))
       \<and> damage (ships (snd (receiveDamage_seq sid xs ?p')) ! nat sid)
           = int (card (insert x S \<union> set xs))"
    proof (rule Cons.IH)
      show "0 \<le> sid" by fact
      show "sid < int (length (ships ?p'))" using Cons.prems(2) by simp
      show "ship_size (ships ?p' ! nat sid) = Some s" using ship' Cons.prems(3) by simp
      show "length (damaged (ships ?p' ! nat sid)) = nat ?N"
        using ship' md Cons.prems(4) by simp
      show "\<forall>j<nat ?N. damaged (ships ?p' ! nat sid) ! j = (int j \<in> insert x S)"
        by (rule flags')
      show "insert x S \<subseteq> {0..<?N}" using Cons.prems(6) x by simp
      show "damage (ships ?p' ! nat sid) = int (card (insert x S))"
        using ship' Cons.prems(7) card' by simp
      show "set xs \<subseteq> {0..<?N}" by (rule xs)
    qed
    have first: "(damage ?ship + 1 = ?N) = (int (card (insert x S)) = ?N)"
      using Cons.prems(7) card' by simp
    show ?thesis
      unfolding fst_eq snd_eq shift
      using IH False first by (simp add: Un_commute insert_commute)
  qed
qed

lemma receiveDamage_seq_repeats:
  assumes a: "0 \<le> sid" "sid < int (length (ships p))"
      "ship_size (ships p ! nat sid) = Some s"
    and f1: "damaged (ships p ! nat sid) = replicate (nat (size_value s)) False"
    and f2: "damage (ships p ! nat sid) = 0"
    and sub: "set parts \<subseteq> {0..<size_value s}"
  shows "fst (receiveDamage_seq sid parts p)
           = map (\<lambda>k. if parts ! k \<in> set (take k parts) then Inl AlreadyDamaged
                       else Inr (int (card (set (take (Suc k) parts))) = size_value s))
                 [0..<length parts]"
    and "length (damaged (ships (snd (receiveDamage_seq sid parts p)) ! nat sid))
           = nat (size_value s)"
    and "\<forall>i<nat (size_value s).
           damaged (ships (snd (receiveDamage_seq sid parts p)) ! nat sid) ! i
             = (int i \<in> set parts)"
    and "damage (ships (snd (receiveDamage_seq sid parts p)) ! nat sid)
           = int (card (set parts))"
proof -
  have len: "length (damaged (ships p ! nat sid)) = nat (size_value s)"
    by (simp add: f1)
  have flags: "\<forall>j<nat (size_value s). damaged (ships p ! nat sid) ! j = (int j \<in> {})"
    by (simp add: f1)
  have empty: "{} \<subseteq> {0..<size_value s}" by simp
  have dmg: "damage (ships p ! nat sid) = int (card ({} :: int set))" by (simp add: f2)
  note M = receiveDamage_seq_marks [OF a len flags empty dmg sub]
  from M show "fst (receiveDamage_seq sid parts p)
           = map (\<lambda>k. if parts ! k \<in> set (take k parts) then Inl AlreadyDamaged
                       else Inr (int (card (set (take (Suc k) parts))) = size_value s))
                 [0..<length parts]"
    by simp
  from M show "length (damaged (ships (snd (receiveDamage_seq sid parts p)) ! nat sid))
           = nat (size_value s)"
    by simp
  from M show "\<forall>i<nat (size_value s).
           damaged (ships (snd (receiveDamage_seq sid parts p)) ! nat sid) ! i
             = (int i \<in> set parts)"
    by simp
  from M show "damage (ships (snd (receiveDamage_seq sid parts p)) ! nat sid)
           = int (card (set parts))"
    by simp
qed

lemma receiveDamage_seq_distinct:
  assumes a: "0 \<le> sid" "sid < int (length (ships p))"
      "ship_size (ships p ! nat sid) = Some s"
    and f1: "damaged (ships p ! nat sid) = replicate (nat (size_value s)) False"
    and f2: "damage (ships p ! nat sid) = 0"
    and f3: "distinct parts"
    and f4: "set parts = {0..<size_value s}"
  shows "length parts = nat (size_value s)"
    and "fst (receiveDamage_seq sid parts p)
           = map (\<lambda>k. Inr (Suc k = length parts)) [0..<length parts]"
    and "\<forall>k\<le>length parts.
           shipCount (snd (receiveDamage_seq sid (take k parts) p))
             = shipCount p - (if k = length parts then 1 else 0)"
    and "damaged (ships (snd (receiveDamage_seq sid parts p)) ! nat sid)
           = replicate (nat (size_value s)) True"
    and "damage (ships (snd (receiveDamage_seq sid parts p)) ! nat sid) = size_value s"
proof -
  have "card (set parts) = card {0..<size_value s}" by (simp only: f4)
  then show len: "length parts = nat (size_value s)"
    using distinct_card [OF f3] by simp
  have gen: "fst (receiveDamage_seq sid xs p)
           = map (\<lambda>k. Inr (damage (ships p ! nat sid) + int k + 1 = size_value s)) [0..<length xs]
       \<and> shipCount (snd (receiveDamage_seq sid xs p))
           = shipCount p - (if xs \<noteq> [] \<and> damage (ships p ! nat sid) + int (length xs) = size_value s
                            then 1 else 0)"
    if xs: "distinct xs" "set xs \<subseteq> set parts" "length xs \<le> length parts" for xs
  proof (rule receiveDamage_seq_general)
    show "0 \<le> sid" "sid < int (length (ships p))" "ship_size (ships p ! nat sid) = Some s"
      by fact+
    show "length (damaged (ships p ! nat sid)) = nat (size_value s)" by (simp add: f1)
    show "distinct xs" by fact
    show "\<forall>x\<in>set xs. 0 \<le> x \<and> x < size_value s \<and> \<not> damaged (ships p ! nat sid) ! nat x"
    proof
      fix x assume "x \<in> set xs"
      then have "x \<in> {0..<size_value s}" using xs(2) f4 by blast
      then show "0 \<le> x \<and> x < size_value s \<and> \<not> damaged (ships p ! nat sid) ! nat x"
        by (simp add: f1)
    qed
    show "damage (ships p ! nat sid) + int (length xs) \<le> size_value s"
      using xs(3) len f2 size_value_pos [of s] by linarith
  qed
  have "fst (receiveDamage_seq sid parts p)
      = map (\<lambda>k. Inr (damage (ships p ! nat sid) + int k + 1 = size_value s)) [0..<length parts]"
    using gen [of parts] f3 by simp
  also have "\<dots> = map (\<lambda>k. Inr (Suc k = length parts)) [0..<length parts]"
    unfolding f2 len by (rule map_cong) auto
  finally show "fst (receiveDamage_seq sid parts p)
      = map (\<lambda>k. Inr (Suc k = length parts)) [0..<length parts]" .
  show "\<forall>k\<le>length parts.
                 shipCount (snd (receiveDamage_seq sid (take k parts) p))
                   = shipCount p - (if k = length parts then 1 else 0)"
  proof (intro allI impI)
    fix k assume k: "k \<le> length parts"
    have "shipCount (snd (receiveDamage_seq sid (take k parts) p))
       = shipCount p - (if take k parts \<noteq> [] \<and> damage (ships p ! nat sid) + int (length (take k parts)) = size_value s
                            then 1 else 0)"
      using gen [of "take k parts"] f3 k by (simp add: set_take_subset)
    also have "\<dots> = shipCount p - (if k = length parts then 1 else 0)"
    proof -
      have "length (take k parts) = k" using k by simp
      moreover have "int (length parts) = size_value s" using len size_value_pos [of s] by simp
      moreover have "0 < length parts" using len size_value_pos [of s] by simp
      ultimately show ?thesis using k f2 by auto
    qed
    finally show "shipCount (snd (receiveDamage_seq sid (take k parts) p))
                   = shipCount p - (if k = length parts then 1 else 0)" .
  qed
  have sub: "set parts \<subseteq> {0..<size_value s}" using f4 by simp
  note R = receiveDamage_seq_repeats [OF a f1 f2 sub]
  show "damaged (ships (snd (receiveDamage_seq sid parts p)) ! nat sid)
           = replicate (nat (size_value s)) True"
  proof (rule nth_equalityI)
    show "length (damaged (ships (snd (receiveDamage_seq sid parts p)) ! nat sid))
        = length (replicate (nat (size_value s)) True)"
      using R(2) by simp
    fix i assume "i < length (damaged (ships (snd (receiveDamage_seq sid parts p)) ! nat sid))"
    then have i: "i < nat (size_value s)" using R(2) by simp
    then have "int i \<in> set parts" unfolding f4 by simp
    with R(3) i show "damaged (ships (snd (receiveDamage_seq sid parts p)) ! nat sid) ! i
        = replicate (nat (size_value s)) True ! i"
      by simp
  qed
  have "int (card (set parts)) = size_value s"
    using len distinct_card [OF f3] size_value_pos [of s] by simp
  with R(4) show "damage (ships (snd (receiveDamage_seq sid parts p)) ! nat sid) = size_value s"
    by simp
qed

text \<open>
  Claim C6. \<open>receiveDamage\<close> fails with the invalid-ship-id error when the id is
  outside the roster, with the invalid-part error when the part is at or beyond the
  size of the ship, and with the already-damaged error when the part is marked;
  otherwise it marks the part and adds one to the damage of the ship, answers whether
  the damage has reached the size, and takes one from the live-ship counter exactly
  then. Marking the part means: afterwards the flag of that part is set and every
  other flag is as it was (the flags are the old ones with \<open>True\<close> written at the
  part), so that the same call again fails with the already-damaged error and changes
  nothing. For an undamaged ship of size \<open>N\<close> and any arrangement of its \<open>N\<close> parts
  without repetition, the calls answer false \<open>N - 1\<close> times and then true, the counter
  keeps its value through the first \<open>N - 1\<close> calls and is one less after the last, and
  in the end all \<open>N\<close> flags are set and the damage is \<open>N\<close>. For any list of parts of
  such a ship, repetitions allowed, a call fails with the already-damaged error
  exactly when its part occurred earlier in the list, any other call answers whether
  all \<open>N\<close> parts have now occurred, and in the end the flags set are those of the parts
  of the list.
\<close>

theorem receiveDamage_spec:
  "(sid < 0 \<or> int (length (ships p)) \<le> sid \<longrightarrow>
      receiveDamage sid part p = (Inl InvalidShipId, p))
   \<and> (0 \<le> sid \<and> sid < int (length (ships p)) \<and> ship_size (ships p ! nat sid) = Some s \<longrightarrow>
        (size_value s \<le> part \<longrightarrow> receiveDamage sid part p = (Inl InvalidPart, p))
      \<and> (0 \<le> part \<and> part < size_value s \<and> damaged_at (damaged (ships p ! nat sid)) (nat part) \<longrightarrow>
           receiveDamage sid part p = (Inl AlreadyDamaged, p))
      \<and> (0 \<le> part \<and> part < size_value s \<and> \<not> damaged_at (damaged (ships p ! nat sid)) (nat part) \<longrightarrow>
           receiveDamage sid part p =
             (Inr (damage (ships p ! nat sid) + 1 = size_value s),
              p\<lparr>ships := (ships p)[nat sid := (ships p ! nat sid)
                    \<lparr>damaged := mark_damaged (damaged (ships p ! nat sid)) (nat part),
                     damage := damage (ships p ! nat sid) + 1\<rparr>],
                shipCount := shipCount p
                   - (if damage (ships p ! nat sid) + 1 = size_value s then 1 else 0)\<rparr>)
           \<and> damaged_at (damaged (ships (snd (receiveDamage sid part p)) ! nat sid)) j
               = (j = nat part \<or> damaged_at (damaged (ships p ! nat sid)) j)
           \<and> (nat part < length (damaged (ships p ! nat sid)) \<longrightarrow>
                damaged (ships (snd (receiveDamage sid part p)) ! nat sid)
                  = (damaged (ships p ! nat sid))[nat part := True])
           \<and> damage (ships (snd (receiveDamage sid part p)) ! nat sid)
               = damage (ships p ! nat sid) + 1
           \<and> receiveDamage sid part (snd (receiveDamage sid part p))
               = (Inl AlreadyDamaged, snd (receiveDamage sid part p)))
      \<and> (damaged (ships p ! nat sid) = replicate (nat (size_value s)) False
           \<and> damage (ships p ! nat sid) = 0
           \<and> distinct parts \<and> set parts = {0..<size_value s} \<longrightarrow>
           length parts = nat (size_value s)
           \<and> fst (receiveDamage_seq sid parts p)
               = map (\<lambda>k. Inr (Suc k = length parts)) [0..<length parts]
           \<and> (\<forall>k\<le>length parts.
                 shipCount (snd (receiveDamage_seq sid (take k parts) p))
                   = shipCount p - (if k = length parts then 1 else 0))
           \<and> damaged (ships (snd (receiveDamage_seq sid parts p)) ! nat sid)
               = replicate (nat (size_value s)) True
           \<and> damage (ships (snd (receiveDamage_seq sid parts p)) ! nat sid) = size_value s)
      \<and> (damaged (ships p ! nat sid) = replicate (nat (size_value s)) False
           \<and> damage (ships p ! nat sid) = 0
           \<and> set parts \<subseteq> {0..<size_value s} \<longrightarrow>
           fst (receiveDamage_seq sid parts p)
               = map (\<lambda>k. if parts ! k \<in> set (take k parts) then Inl AlreadyDamaged
                           else Inr (int (card (set (take (Suc k) parts))) = size_value s))
                     [0..<length parts]
           \<and> (\<forall>i<nat (size_value s).
                 damaged (ships (snd (receiveDamage_seq sid parts p)) ! nat sid) ! i
                   = (int i \<in> set parts))))"
  (is "?C \<and> (?A \<longrightarrow> ?B1 \<and> ?B2 \<and> ?B3 \<and> ?B4 \<and> ?B5)")
proof -
  have c: ?C by (auto simp: receiveDamage_def)
  have b: "?B1 \<and> ?B2 \<and> ?B3 \<and> ?B4 \<and> ?B5" if A: ?A
  proof -
    from A have a: "0 \<le> sid" "sid < int (length (ships p))"
        "ship_size (ships p ! nat sid) = Some s"
      by blast+
    have b1: ?B1 using a by (simp add: receiveDamage_def Let_def)
    have b2: ?B2 using a by (simp add: receiveDamage_def Let_def)
    have b3: ?B3
    proof (rule impI)
      assume "0 \<le> part \<and> part < size_value s
          \<and> \<not> damaged_at (damaged (ships p ! nat sid)) (nat part)"
      then have pt: "0 \<le> part" "part < size_value s"
        and nd: "\<not> damaged_at (damaged (ships p ! nat sid)) (nat part)"
        by blast+
      note S = receiveDamage_success [OF a(1,2,3) pt nd]
      note M = receiveDamage_marks [OF a(1,2,3) pt nd]
      show "receiveDamage sid part p =
             (Inr (damage (ships p ! nat sid) + 1 = size_value s),
              p\<lparr>ships := (ships p)[nat sid := (ships p ! nat sid)
                    \<lparr>damaged := mark_damaged (damaged (ships p ! nat sid)) (nat part),
                     damage := damage (ships p ! nat sid) + 1\<rparr>],
                shipCount := shipCount p
                   - (if damage (ships p ! nat sid) + 1 = size_value s then 1 else 0)\<rparr>)
           \<and> damaged_at (damaged (ships (snd (receiveDamage sid part p)) ! nat sid)) j
               = (j = nat part \<or> damaged_at (damaged (ships p ! nat sid)) j)
           \<and> (nat part < length (damaged (ships p ! nat sid)) \<longrightarrow>
                damaged (ships (snd (receiveDamage sid part p)) ! nat sid)
                  = (damaged (ships p ! nat sid))[nat part := True])
           \<and> damage (ships (snd (receiveDamage sid part p)) ! nat sid)
               = damage (ships p ! nat sid) + 1
           \<and> receiveDamage sid part (snd (receiveDamage sid part p))
               = (Inl AlreadyDamaged, snd (receiveDamage sid part p))"
        by (rule conjI [OF S conjI [OF M(1) conjI [OF impI [OF M(2)] conjI [OF M(3) M(4)]]]])
    qed
    have b4: ?B4
    proof (rule impI)
      assume "damaged (ships p ! nat sid) = replicate (nat (size_value s)) False
           \<and> damage (ships p ! nat sid) = 0
           \<and> distinct parts \<and> set parts = {0..<size_value s}"
      then have f: "damaged (ships p ! nat sid) = replicate (nat (size_value s)) False"
          "damage (ships p ! nat sid) = 0" "distinct parts" "set parts = {0..<size_value s}"
        by blast+
      note D = receiveDamage_seq_distinct [OF a f]
      show "length parts = nat (size_value s)
           \<and> fst (receiveDamage_seq sid parts p)
               = map (\<lambda>k. Inr (Suc k = length parts)) [0..<length parts]
           \<and> (\<forall>k\<le>length parts.
                 shipCount (snd (receiveDamage_seq sid (take k parts) p))
                   = shipCount p - (if k = length parts then 1 else 0))
           \<and> damaged (ships (snd (receiveDamage_seq sid parts p)) ! nat sid)
               = replicate (nat (size_value s)) True
           \<and> damage (ships (snd (receiveDamage_seq sid parts p)) ! nat sid) = size_value s"
        by (rule conjI [OF D(1) conjI [OF D(2) conjI [OF D(3) conjI [OF D(4) D(5)]]]])
    qed
    have b5: ?B5
    proof (rule impI)
      assume "damaged (ships p ! nat sid) = replicate (nat (size_value s)) False
           \<and> damage (ships p ! nat sid) = 0
           \<and> set parts \<subseteq> {0..<size_value s}"
      then have f: "damaged (ships p ! nat sid) = replicate (nat (size_value s)) False"
          "damage (ships p ! nat sid) = 0" "set parts \<subseteq> {0..<size_value s}"
        by blast+
      note R = receiveDamage_seq_repeats [OF a f]
      show "fst (receiveDamage_seq sid parts p)
               = map (\<lambda>k. if parts ! k \<in> set (take k parts) then Inl AlreadyDamaged
                           else Inr (int (card (set (take (Suc k) parts))) = size_value s))
                     [0..<length parts]
           \<and> (\<forall>i<nat (size_value s).
                 damaged (ships (snd (receiveDamage_seq sid parts p)) ! nat sid) ! i
                   = (int i \<in> set parts))"
        by (rule conjI [OF R(1) R(3)])
    qed
    show ?thesis by (rule conjI [OF b1 conjI [OF b2 conjI [OF b3 conjI [OF b4 b5]]]])
  qed
  show ?thesis by (rule conjI [OF c]) (rule impI, rule b, assumption)
qed

theorem receiveDamage_spec_witness:
  "receiveDamage 1 0 roster3 = (Inl InvalidShipId, roster3)
   \<and> receiveDamage 0 3 roster3 = (Inl InvalidPart, roster3)
   \<and> fst (receiveDamage 0 2 roster3) = Inr False
   \<and> damaged (ships (snd (receiveDamage 0 2 roster3)) ! nat 0) = [False, False, True]
   \<and> fst (receiveDamage 0 2 (snd (receiveDamage 0 2 roster3))) = Inl AlreadyDamaged
   \<and> fst (receiveDamage_seq 0 [2, 0, 1] roster3) = [Inr False, Inr False, Inr True]
   \<and> shipCount (snd (receiveDamage_seq 0 [2, 0] roster3)) = 1
   \<and> shipCount (snd (receiveDamage_seq 0 [2, 0, 1] roster3)) = 0
   \<and> damaged (ships (snd (receiveDamage_seq 0 [2, 0, 1] roster3)) ! nat 0) = [True, True, True]
   \<and> fst (receiveDamage_seq 0 [2, 0, 2] roster3) = [Inr False, Inr False, Inl AlreadyDamaged]"
proof -
  have sh: "ships roster3 ! nat 0 = new_ShipPiece 0 (Some Size3) HORIZONTAL (0, 1)"
    "length (ships roster3) = 1"
    by (simp_all add: roster3_def)
  have fresh: "damaged (ships roster3 ! nat 0) = replicate (nat (size_value Size3)) False"
    "damage (ships roster3 ! nat 0) = 0" "ship_size (ships roster3 ! nat 0) = Some Size3"
    by (simp_all add: roster3_def new_ShipPiece_def)
  have perm: "distinct [2, 0, 1 :: int]" "set [2, 0, 1 :: int] = {0..<size_value Size3}"
    by auto
  have sub: "set [2, 0, 2 :: int] \<subseteq> {0..<size_value Size3}" by simp
  from receiveDamage_spec [where sid = 1 and p = roster3 and part = 0 and s = Size3
      and parts = "[]" and j = 0] sh
  have 1: "receiveDamage 1 0 roster3 = (Inl InvalidShipId, roster3)" by simp
  have hyp: "0 \<le> (0::int) \<and> 0 < int (length (ships roster3))
       \<and> ship_size (ships roster3 ! nat 0) = Some Size3"
    using sh fresh by simp
  have fr: "damaged (ships roster3 ! nat 0) = replicate (nat (size_value Size3)) False
       \<and> damage (ships roster3 ! nat 0) = 0
       \<and> distinct [2, 0, 1 :: int] \<and> set [2, 0, 1 :: int] = {0..<size_value Size3}"
    using fresh perm by blast
  have fr2: "damaged (ships roster3 ! nat 0) = replicate (nat (size_value Size3)) False
       \<and> damage (ships roster3 ! nat 0) = 0
       \<and> set [2, 0, 2 :: int] \<subseteq> {0..<size_value Size3}"
    using fresh sub by blast
  from receiveDamage_spec [where sid = 0 and p = roster3 and part = 3 and s = Size3
      and parts = "[]" and j = 0] hyp
  have 2: "receiveDamage 0 3 roster3 = (Inl InvalidPart, roster3)"
    by simp
  have nd: "0 \<le> (2::int) \<and> 2 < size_value Size3
      \<and> \<not> damaged_at (damaged (ships roster3 ! nat 0)) (nat 2)"
    by (simp add: roster3_def new_ShipPiece_def damaged_at_def)
  have inr: "nat 2 < length (damaged (ships roster3 ! nat 0))"
    by (simp add: roster3_def new_ShipPiece_def)
  from receiveDamage_spec [where sid = 0 and p = roster3 and part = 2 and s = Size3
      and parts = "[]" and j = 0] hyp nd
  have first: "receiveDamage 0 2 roster3 =
             (Inr (damage (ships roster3 ! nat 0) + 1 = size_value Size3),
              roster3\<lparr>ships := (ships roster3)[nat 0 := (ships roster3 ! nat 0)
                    \<lparr>damaged := mark_damaged (damaged (ships roster3 ! nat 0)) (nat 2),
                     damage := damage (ships roster3 ! nat 0) + 1\<rparr>],
                shipCount := shipCount roster3
                   - (if damage (ships roster3 ! nat 0) + 1 = size_value Size3 then 1 else 0)\<rparr>)"
    and upd: "nat 2 < length (damaged (ships roster3 ! nat 0)) \<longrightarrow>
                damaged (ships (snd (receiveDamage 0 2 roster3)) ! nat 0)
                  = (damaged (ships roster3 ! nat 0))[nat 2 := True]"
    and again: "receiveDamage 0 2 (snd (receiveDamage 0 2 roster3))
               = (Inl AlreadyDamaged, snd (receiveDamage 0 2 roster3))"
    by blast+
  from first fresh have 3: "fst (receiveDamage 0 2 roster3) = Inr False" by simp
  from upd inr have 4: "damaged (ships (snd (receiveDamage 0 2 roster3)) ! nat 0)
      = [False, False, True]"
    by (simp add: roster3_def new_ShipPiece_def numeral_3_eq_3 numeral_2_eq_2)
  from again have 5: "fst (receiveDamage 0 2 (snd (receiveDamage 0 2 roster3)))
      = Inl AlreadyDamaged"
    by simp
  from receiveDamage_spec [where sid = 0 and p = roster3 and part = 0 and s = Size3
      and parts = "[2, 0, 1]" and j = 0] hyp fr
  have seq: "fst (receiveDamage_seq 0 [2, 0, 1] roster3)
       = map (\<lambda>k. Inr (Suc k = length [2, 0, 1 :: int])) [0..<length [2, 0, 1 :: int]]"
    and cnt: "\<forall>k\<le>length [2, 0, 1 :: int].
        shipCount (snd (receiveDamage_seq 0 (take k [2, 0, 1]) roster3))
          = shipCount roster3 - (if k = length [2, 0, 1 :: int] then 1 else 0)"
    and final: "damaged (ships (snd (receiveDamage_seq 0 [2, 0, 1] roster3)) ! nat 0)
               = replicate (nat (size_value Size3)) True"
    by blast+
  have upt3: "[0..<length [2, 0, 1 :: int]] = [0, 1, 2]" by code_simp
  from seq have 6: "fst (receiveDamage_seq 0 [2, 0, 1] roster3) = [Inr False, Inr False, Inr True]"
    unfolding upt3 by simp
  from cnt [rule_format, of 2]
  have 7: "shipCount (snd (receiveDamage_seq 0 [2, 0] roster3)) = 1"
    by (simp add: roster3_def)
  from cnt [rule_format, of 3]
  have 8: "shipCount (snd (receiveDamage_seq 0 [2, 0, 1] roster3)) = 0"
    by (simp add: roster3_def)
  from final have 9: "damaged (ships (snd (receiveDamage_seq 0 [2, 0, 1] roster3)) ! nat 0)
      = [True, True, True]"
    by (simp add: numeral_3_eq_3)
  from receiveDamage_spec [where sid = 0 and p = roster3 and part = 0 and s = Size3
      and parts = "[2, 0, 2]" and j = 0] hyp fr2
  have rep: "fst (receiveDamage_seq 0 [2, 0, 2] roster3)
       = map (\<lambda>k. if [2, 0, 2 :: int] ! k \<in> set (take k [2, 0, 2]) then Inl AlreadyDamaged
                   else Inr (int (card (set (take (Suc k) [2, 0, 2 :: int]))) = size_value Size3))
             [0..<length [2, 0, 2 :: int]]"
    by blast
  have upt3': "[0..<length [2, 0, 2 :: int]] = [0, 1, 2]" by code_simp
  from rep have 10: "fst (receiveDamage_seq 0 [2, 0, 2] roster3)
      = [Inr False, Inr False, Inl AlreadyDamaged]"
    unfolding upt3' by (simp add: numeral_2_eq_2)
  from 1 2 3 4 5 6 7 8 9 10 show ?thesis by blast
qed

section \<open>Properties of the game\<close>













lemma attacked_player_put [simp]:
  "attacked_player a (put_attacked a p b g) = p"
  by (simp add: attacked_player_def put_attacked_def)





lemma Player_settleShip_board:
  "snd (snd (Player_settleShip sz ori pos p b))
     = snd (Board_settleShip (new_ShipPiece (shipCount p) sz ori pos) b)"
  by (simp add: Player_settleShip_def Let_def split: prod.splits sum.splits)

text \<open>Every board of a reachable game has the shape that \<open>initBoard\<close> gave it.\<close>

lemma reachable_boards_wf:
  "reachable n g \<Longrightarrow> board_wf (p1Board g) \<and> board_wf (p2Board g)"
proof (induction rule: reachable.induct)
  case (reach_new n)
  then show ?case by (simp add: new_BattleShipGame_def board_wf_new)
next
  case (reach_settle n g pl sz ori pos)
  then show ?case
    using board_wf_settle [of "p1Board g" "new_ShipPiece (shipCount (p1 g)) sz ori pos"]
          board_wf_settle [of "p2Board g" "new_ShipPiece (shipCount (p2 g)) sz ori pos"]
          Player_settleShip_board [of sz ori pos "p1 g" "p1Board g"]
          Player_settleShip_board [of sz ori pos "p2 g" "p2Board g"]
    by (auto simp: Game_settleShip_def split: prod.splits)
next
  case (reach_attack n g pl target)
  then show ?case
    using board_wf_attack [of "p1Board g" target] board_wf_attack [of "p2Board g" target]
    by (auto simp: Game_attack_def Player_attack_def pin_board_def put_attacked_def
             split: prod.splits sum.splits option.splits)
qed

lemmas game_eval =
  Game_settleShip_def Player_settleShip_def new_BattleShipGame_def new_BattleShipPlayer_def
  Game_attack_def Player_attack_def Board_attack_def receiveDamage_def pin_board_def
  attacked_player_def put_attacked_def damaged_at_def mark_damaged_def Let_def



section \<open>Properties of the rules\<close>

lemma Player_settleShip_failure:
  "fst (Player_settleShip sz ori pos p b) = Inl e \<Longrightarrow>
     snd (Player_settleShip sz ori pos p b) = (p, b)"
  using Board_settleShip_failure [of "new_ShipPiece (shipCount p) sz ori pos" b]
  by (auto simp: Player_settleShip_def Let_def split: prod.splits sum.splits)

lemma Game_settleShip_failure:
  "fst (Game_settleShip pl sz ori pos g) = Inl e \<Longrightarrow> snd (Game_settleShip pl sz ori pos g) = g"
  using Player_settleShip_failure [of sz ori pos "p1 g" "p1Board g" e]
        Player_settleShip_failure [of sz ori pos "p2 g" "p2Board g" e]
  by (auto simp: Game_settleShip_def split: prod.splits)

lemma generateControls_crafting [simp]:
  "sc_player s' = sc_player s \<Longrightarrow>
     generateControls (ShipCrafting s) (ShipCrafting s') = []"
  by (cases "sc_player s") (simp_all add: generateControls_def state_player_def)

lemma generateControls_battle [simp]:
  "generateControls (Battle s) (Battle s') = []"
  by (simp add: generateControls_def)

lemma buildShipSizeSequence_eq: "buildShipSizeSequence = [Size1, Size1, Size3, Size3, Size5]"
  by code_simp

lemmas rules_eval =
  Rules_apply_def processSelect_def processUnselect_def processRotate_def processMove_def
  afterSettle_def nextShipSize_def size_at_def ShipCraft_reset_def Battle_reset_def clone_def
  generateControls_def state_player_def new_ShipCraftState_def new_BattleState_def
  buildShipSizeSequence_eq started_def

lemma Rules_init_started:
  "Rules_init new_BattleShipRules = Inr (([MakeShipCmd (Some Size1)], initInteraction), started)"
  by (simp add: Rules_init_def initView_def new_BattleShipRules_def rules_eval)

lemma placement_state_eq:
  "placement_state = ShipCrafting
     \<lparr> sc_player = P1, sc_selected = True,
       shipSizeSequence = [Size1, Size1, Size3, Size3, Size5], shipSizeIterator = 2,
       sc_orientation = HORIZONTAL, sc_pos = Some (0, 9) \<rparr>"
  by (simp add: placement_state_def placement_events_def rules_eval game_eval board_eval)

lemma placement_settle_fails:
  "fst (Game_settleShip P1 (Some Size3) HORIZONTAL (0, 9) placement_game) = Inl OutOfBounds"
  by (simp add: placement_game_def placement_events_def rules_eval game_eval board_eval)

text \<open>
  Claim C10. When an unselect event arrives while a piece is selected and has no
  pending position, the rules emit the one command that lays the piece back down
  (\<open>SettleShipCmd\<close> while crafting, \<open>SettlePinCmd\<close> in battle) and no control, leave the
  game as it is, and change nothing in their state but the selection flag, which
  becomes false.
\<close>

theorem unselect_without_position:
  "(sc_selected s \<and> sc_pos s = None \<longrightarrow>
      Rules_apply BSUnselectEvent (ShipCrafting s) g
        = (([SettleShipCmd], []), ShipCrafting (s\<lparr>sc_selected := False\<rparr>), g))
   \<and> (bt_selected t \<and> bt_pos t = None \<longrightarrow>
      Rules_apply BSUnselectEvent (Battle t) g
        = (([SettlePinCmd], []), Battle (t\<lparr>bt_selected := False\<rparr>), g))"
  by (simp add: Rules_apply_def processUnselect_def clone_def Let_def)

theorem unselect_without_position_witness:
  "Rules_apply BSUnselectEvent
      (ShipCrafting ((new_ShipCraftState buildShipSizeSequence P1)\<lparr>sc_selected := True\<rparr>))
      (new_BattleShipGame 10)
     = (([SettleShipCmd], []), ShipCrafting (new_ShipCraftState buildShipSizeSequence P1),
        new_BattleShipGame 10)
   \<and> Rules_apply BSUnselectEvent (Battle (new_BattleState\<lparr>bt_selected := True\<rparr>))
        (new_BattleShipGame 10)
     = (([SettlePinCmd], []), Battle new_BattleState, new_BattleShipGame 10)"
  using unselect_without_position
     [of "(new_ShipCraftState buildShipSizeSequence P1)\<lparr>sc_selected := True\<rparr>"
         "new_BattleShipGame 10" "new_BattleState\<lparr>bt_selected := True\<rparr>"]
  by (simp add: new_ShipCraftState_def new_BattleState_def)

text \<open>
  Claim C1, as the code has it. When a piece is selected while crafting, has a
  pending position, and \<open>game.settleShip\<close> fails for it, the unselect event emits one
  error command with the player, the size, the orientation, the position and the
  failure, emits no control and leaves the game unchanged; the rules state keeps its
  phase, player, cursor, orientation and position, and its selection flag becomes
  false.
\<close>

theorem unselect_failed_settle:
  assumes "sc_selected s" and "sc_pos s = Some position"
    and "fst (Game_settleShip (sc_player s)
                (size_at (shipSizeSequence s) (shipSizeIterator s))
                (sc_orientation s) position g) = Inl e"
  shows "Rules_apply BSUnselectEvent (ShipCrafting s) g
     = (([ErrorCmd (SettleLog (sc_player s)
                      (size_at (shipSizeSequence s) (shipSizeIterator s))
                      (sc_orientation s) position e)], []),
        ShipCrafting (s\<lparr>sc_selected := False\<rparr>), g)"
proof -
  obtain r g' where res: "Game_settleShip (sc_player s)
                (size_at (shipSizeSequence s) (shipSizeIterator s))
                (sc_orientation s) position g = (r, g')"
    by (cases "Game_settleShip (sc_player s)
                (size_at (shipSizeSequence s) (shipSizeIterator s))
                (sc_orientation s) position g")
  with assms(3) Game_settleShip_failure [OF assms(3)] have "r = Inl e" "g' = g" by simp_all
  with res assms(1,2) show ?thesis
    by (simp add: Rules_apply_def processUnselect_def clone_def Let_def)
qed

theorem unselect_failed_settle_witness:
  "Rules_apply BSUnselectEvent placement_state placement_game
     = (([ErrorCmd (SettleLog P1 (Some Size3) HORIZONTAL (0, 9) OutOfBounds)], []),
        ShipCrafting
          \<lparr> sc_player = P1, sc_selected = False,
            shipSizeSequence = [Size1, Size1, Size3, Size3, Size5], shipSizeIterator = 2,
            sc_orientation = HORIZONTAL, sc_pos = Some (0, 9) \<rparr>,
        placement_game)"
proof -
  let ?s = "\<lparr> sc_player = P1, sc_selected = True,
       shipSizeSequence = [Size1, Size1, Size3, Size3, Size5], shipSizeIterator = 2,
       sc_orientation = HORIZONTAL, sc_pos = Some (0, 9) \<rparr>"
  have 1: "sc_selected ?s" by simp
  have 2: "sc_pos ?s = Some (0, 9)" by simp
  have 3: "fst (Game_settleShip (sc_player ?s)
                (size_at (shipSizeSequence ?s) (shipSizeIterator ?s))
                (sc_orientation ?s) (0, 9) placement_game) = Inl OutOfBounds"
    using placement_settle_fails by (simp add: size_at_def)
  from unselect_failed_settle [OF 1 2 3] show ?thesis
    unfolding placement_state_eq by (simp add: size_at_def)
qed

text \<open>
  Claim C1, as stated, fails: after one ship is placed, the next one (of size 3) is
  selected and moved to \<open>(0, 9)\<close>, where it does not fit; the unselect event reports
  the failure, and the state it leaves differs from the state before it, the
  selection flag having become false.
\<close>

theorem failed_settle_unselects:
  "placement_state = ShipCrafting
     \<lparr> sc_player = P1, sc_selected = True,
       shipSizeSequence = [Size1, Size1, Size3, Size3, Size5], shipSizeIterator = 2,
       sc_orientation = HORIZONTAL, sc_pos = Some (0, 9) \<rparr>
   \<and> fst (Game_settleShip P1 (Some Size3) HORIZONTAL (0, 9) placement_game) = Inl OutOfBounds
   \<and> fst (Rules_apply BSUnselectEvent placement_state placement_game)
       = ([ErrorCmd (SettleLog P1 (Some Size3) HORIZONTAL (0, 9) OutOfBounds)], [])
   \<and> fst (snd (Rules_apply BSUnselectEvent placement_state placement_game)) = ShipCrafting
     \<lparr> sc_player = P1, sc_selected = False,
       shipSizeSequence = [Size1, Size1, Size3, Size3, Size5], shipSizeIterator = 2,
       sc_orientation = HORIZONTAL, sc_pos = Some (0, 9) \<rparr>
   \<and> fst (snd (Rules_apply BSUnselectEvent placement_state placement_game)) \<noteq> placement_state"
proof -
  have f: "Game_settleShip P1 (Some Size3) HORIZONTAL (0, 9) placement_game
      = (Inl OutOfBounds, placement_game)"
    using placement_settle_fails Game_settleShip_failure [OF placement_settle_fails]
    by (simp add: prod_eq_iff)
  show ?thesis
    unfolding placement_state_eq
    by (simp add: placement_settle_fails Rules_apply_def processUnselect_def clone_def
          size_at_def f generateControls_def state_player_def)
qed

text \<open>
  Claim C2, on the code. \<open>init\<close> announces the first size of the sequence and moves
  the cursor past it, and each commit reads the size under the cursor: the size
  settled is the one after the size announced. With the sequence 1, 1, 3, 3, 5 of the
  settings the first player's commits announce 1, 1, 3, 3, 5 and settle ships of sizes
  1, 3, 3, 5 and \<open>undefined\<close>.
\<close>

theorem settled_sizes_lag_announcements:
  "Rules_init new_BattleShipRules = Inr (([MakeShipCmd (Some Size1)], initInteraction), started)
   \<and> fst (run crafting_events started (new_BattleShipGame 10))
     = [SelectShipCmd, MoveShipCmd (0, 0), SettleShipCmd, MakeShipCmd (Some Size1),
        SelectShipCmd, MoveShipCmd (1, 1), SettleShipCmd, MakeShipCmd (Some Size3),
        SelectShipCmd, MoveShipCmd (2, 1), SettleShipCmd, MakeShipCmd (Some Size3),
        SelectShipCmd, MoveShipCmd (3, 2), SettleShipCmd, MakeShipCmd (Some Size5),
        SelectShipCmd, MoveShipCmd (4, 0), SettleShipCmd, ChangePlayerCmd,
        MakeShipCmd (Some Size1)]
   \<and> map ship_size (ships (p1 (snd (snd (run crafting_events started (new_BattleShipGame 10))))))
     = [Some Size1, Some Size3, Some Size3, Some Size5, None]"
  by (simp add: Rules_init_started crafting_events_def rules_eval game_eval board_eval)

lemma phase_step:
  "phase st \<le> phase (fst (snd (Rules_apply e st g)))
   \<and> phase (fst (snd (Rules_apply e st g))) \<le> Suc (phase st)"
  by (cases e; cases st)
     (auto simp: Rules_apply_def processSelect_def processUnselect_def processRotate_def
         processMove_def afterSettle_def Let_def
       split: prod.splits sum.splits option.splits if_splits nullable.splits)

lemma phase_run: "phase st \<le> phase (fst (snd (run es st g)))"
proof (induction es arbitrary: st g)
  case Nil
  then show ?case by simp
next
  case (Cons e es)
  obtain cmds ctl st' g' where a: "Rules_apply e st g = ((cmds, ctl), st', g')"
    by (cases "Rules_apply e st g") auto
  obtain cmds' st'' g'' where b: "run es st' g' = (cmds', st'', g'')"
    by (cases "run es st' g'") auto
  from phase_step [of st e g] a have "phase st \<le> phase st'" by simp
  also from Cons.IH [of st' g'] b have "phase st' \<le> phase st''" by simp
  finally show ?case using a b by simp
qed

lemma GameOver_apply: "Rules_apply e (GameOver w) g = (([], []), GameOver w, g)"
  by (cases e)
     (simp_all add: Rules_apply_def processSelect_def processUnselect_def processRotate_def
         processMove_def clone_def generateControls_def)

lemma GameOver_run: "run es (GameOver w) g = ([], GameOver w, g)"
  by (induction es) (simp_all add: GameOver_apply)

text \<open>
  Claim C9. No event moves the rules state to an earlier phase, and no event moves
  it further than the next phase: from crafting only to battle, from battle only to
  game over; the same holds along any sequence of events. In the game-over state
  every event yields no command and no control and leaves the state and the game as
  they are.
\<close>

theorem phases_one_way:
  "phase st \<le> phase (fst (snd (Rules_apply e st g)))
   \<and> phase (fst (snd (Rules_apply e st g))) \<le> Suc (phase st)
   \<and> phase st \<le> phase (fst (snd (run es st g)))
   \<and> Rules_apply e (GameOver w) g = (([], []), GameOver w, g)
   \<and> run es (GameOver w) g = ([], GameOver w, g)"
  using phase_step [of st e g] phase_run [of st es g] GameOver_apply [of e w g]
    GameOver_run [of es w g]
  by blast

end
